theory Spec2Isabelle
  imports Complex_Main "HOL-Library.Word"
begin

unbundle bit_operations_syntax

section \<open>The scene nodes of flash.display.DisplayObject\<close>

text \<open>
  The display list of \<^verbatim>\<open>src/flash.ts/display/DisplayObject.ts\<close> is a set of
  mutable objects that point at each other (\<^verbatim>\<open>_parent\<close>, \<^verbatim>\<open>_children\<close>,
  \<^verbatim>\<open>_mask\<close>, \<^verbatim>\<open>_maskedObject\<close>, \<^verbatim>\<open>_stage\<close>). The model is an explicit
  store: every object has an address (a natural number), a reference is an optional
  address (\<open>None\<close> is JavaScript's \<^verbatim>\<open>null\<close>), and every method takes the store
  and returns the store it leaves behind.

  A method that throws returns \<open>Inl\<close> of the error together with the store as it
  was when the exception left the method. A method that walks the \<^verbatim>\<open>_parent\<close>
  links loops forever on a cyclic chain of parents; such a method returns an
  \<open>option\<close>, and \<open>None\<close> is the call that never returns.
\<close>

subsection \<open>Numbers\<close>

text \<open>
  A JavaScript number handed to a setter is a finite number, a NaN or an infinity.
  The rounding and the overflow of the double-precision product are not modelled: a
  finite number is a real. \<open>ToInt32\<close> is the conversion that the operator
  \<^verbatim>\<open>| 0\<close> applies: it drops the fraction and wraps around at 32 bits.
\<close>

datatype number = Finite real | NaN | PosInfinity | NegInfinity

definition ToInt32 :: "number \<Rightarrow> int" where
  "ToInt32 v =
     (case v of
        Finite r \<Rightarrow>
          (let t = (if 0 \<le> r then \<lfloor>r\<rfloor> else \<lceil>r\<rceil>);
               k = t mod 2 ^ 32
           in if 2 ^ 31 \<le> k then k - 2 ^ 32 else k)
      | NaN \<Rightarrow> 0
      | PosInfinity \<Rightarrow> 0
      | NegInfinity \<Rightarrow> 0)"

definition times20 :: "number \<Rightarrow> number" where
  "times20 v = (case v of Finite r \<Rightarrow> Finite (r * 20) | NaN \<Rightarrow> NaN
                | PosInfinity \<Rightarrow> PosInfinity | NegInfinity \<Rightarrow> NegInfinity)"

subsection \<open>Geometry\<close>

record Matrix =
  m_a :: real
  m_b :: real
  m_c :: real
  m_d :: real
  m_tx :: real
  m_ty :: real

record Rectangle =
  r_x :: real
  r_y :: real
  r_width :: real
  r_height :: real

record ColorTransform =
  redMultiplier :: real
  greenMultiplier :: real
  blueMultiplier :: real
  alphaMultiplier :: real
  redOffset :: real
  greenOffset :: real
  blueOffset :: real
  alphaOffset :: real

text \<open>
  Modelled from the spec: the class \<^verbatim>\<open>flash.geom.Matrix\<close> is not in the source
  file. \<^verbatim>\<open>new Matrix()\<close> is the identity, \<^verbatim>\<open>concat\<close> is the matrix product of
  the spec (the receiver first, the argument second), \<^verbatim>\<open>invert\<close> its inverse.
\<close>

definition Matrix_new :: Matrix where
  "Matrix_new = \<lparr>m_a = 1, m_b = 0, m_c = 0, m_d = 1, m_tx = 0, m_ty = 0\<rparr>"

definition Matrix_concat :: "Matrix \<Rightarrow> Matrix \<Rightarrow> Matrix" where
  "Matrix_concat s m =
     \<lparr>m_a = m_a s * m_a m + m_b s * m_c m,
      m_b = m_a s * m_b m + m_b s * m_d m,
      m_c = m_c s * m_a m + m_d s * m_c m,
      m_d = m_c s * m_b m + m_d s * m_d m,
      m_tx = m_tx s * m_a m + m_ty s * m_c m + m_tx m,
      m_ty = m_tx s * m_b m + m_ty s * m_d m + m_ty m\<rparr>"

definition Matrix_invert :: "Matrix \<Rightarrow> Matrix" where
  "Matrix_invert s =
     (let det = m_a s * m_d s - m_b s * m_c s in
      if det = 0 then Matrix_new
      else \<lparr>m_a = m_d s / det,
            m_b = - m_b s / det,
            m_c = - m_c s / det,
            m_d = m_a s / det,
            m_tx = (m_c s * m_ty s - m_d s * m_tx s) / det,
            m_ty = (m_b s * m_tx s - m_a s * m_ty s) / det\<rparr>)"

definition transformX :: "Matrix \<Rightarrow> real \<Rightarrow> real \<Rightarrow> real" where
  "transformX m px py = m_a m * px + m_c m * py + m_tx m"

definition transformY :: "Matrix \<Rightarrow> real \<Rightarrow> real \<Rightarrow> real" where
  "transformY m px py = m_b m * px + m_d m * py + m_ty m"

text \<open>
  Modelled from the spec: the class \<^verbatim>\<open>flash.geom.Rectangle\<close> is not in the source
  file. The empty rectangle is all zeros, a rectangle with no area is empty, the union
  of two rectangles is their bounding rectangle, and \<^verbatim>\<open>transformRectAABB\<close> is the
  axis-aligned box of the four transformed corners.
\<close>

definition Rectangle_setEmpty :: Rectangle where
  "Rectangle_setEmpty = \<lparr>r_x = 0, r_y = 0, r_width = 0, r_height = 0\<rparr>"

definition Rectangle_isEmpty :: "Rectangle \<Rightarrow> bool" where
  "Rectangle_isEmpty r = (r_width r \<le> 0 \<or> r_height r \<le> 0)"

definition Rectangle_unionWith :: "Rectangle \<Rightarrow> Rectangle \<Rightarrow> Rectangle" where
  "Rectangle_unionWith r other =
     (if Rectangle_isEmpty other then r
      else if Rectangle_isEmpty r then other
      else (let l = min (r_x r) (r_x other);
                t = min (r_y r) (r_y other);
                rt = max (r_x r + r_width r) (r_x other + r_width other);
                bt = max (r_y r + r_height r) (r_y other + r_height other)
            in \<lparr>r_x = l, r_y = t, r_width = rt - l, r_height = bt - t\<rparr>))"

definition Rectangle_toPixels :: "Rectangle \<Rightarrow> Rectangle" where
  "Rectangle_toPixels r =
     \<lparr>r_x = r_x r / 20, r_y = r_y r / 20, r_width = r_width r / 20, r_height = r_height r / 20\<rparr>"

definition min4 :: "real \<Rightarrow> real \<Rightarrow> real \<Rightarrow> real \<Rightarrow> real" where
  "min4 p q r s = min (min p q) (min r s)"

definition max4 :: "real \<Rightarrow> real \<Rightarrow> real \<Rightarrow> real \<Rightarrow> real" where
  "max4 p q r s = max (max p q) (max r s)"

definition transformRectAABB :: "Matrix \<Rightarrow> Rectangle \<Rightarrow> Rectangle" where
  "transformRectAABB m r =
     (let x0 = r_x r; y0 = r_y r; x1 = r_x r + r_width r; y1 = r_y r + r_height r;
          xa = transformX m x0 y0; ya = transformY m x0 y0;
          xb = transformX m x1 y0; yb = transformY m x1 y0;
          xc = transformX m x1 y1; yc = transformY m x1 y1;
          xd = transformX m x0 y1; yd = transformY m x0 y1;
          l = min4 xa xb xc xd; t = min4 ya yb yc yd
      in \<lparr>r_x = l, r_y = t,
          r_width = max4 xa xb xc xd - l, r_height = max4 ya yb yc yd - t\<rparr>)"

text \<open>
  Modelled from the spec: the class \<^verbatim>\<open>flash.geom.ColorTransform\<close> is not in the
  source file. A tint multiplies and then adds; \<^verbatim>\<open>concat\<close> is the tint that
  applies the receiver first and the argument second.
\<close>

definition ColorTransform_new :: ColorTransform where
  "ColorTransform_new =
     \<lparr>redMultiplier = 1, greenMultiplier = 1, blueMultiplier = 1, alphaMultiplier = 1,
      redOffset = 0, greenOffset = 0, blueOffset = 0, alphaOffset = 0\<rparr>"

definition ColorTransform_concat :: "ColorTransform \<Rightarrow> ColorTransform \<Rightarrow> ColorTransform" where
  "ColorTransform_concat s m =
     \<lparr>redMultiplier = redMultiplier s * redMultiplier m,
      greenMultiplier = greenMultiplier s * greenMultiplier m,
      blueMultiplier = blueMultiplier s * blueMultiplier m,
      alphaMultiplier = alphaMultiplier s * alphaMultiplier m,
      redOffset = redOffset s * redMultiplier m + redOffset m,
      greenOffset = greenOffset s * greenMultiplier m + greenOffset m,
      blueOffset = blueOffset s * blueMultiplier m + blueOffset m,
      alphaOffset = alphaOffset s * alphaMultiplier m + alphaOffset m\<rparr>"

text \<open>
  Modelled from the spec: the class \<^verbatim>\<open>flash.display.Graphics\<close> is not in the source
  file. Of a node's drawable content the engine consumes only the bounding rectangle,
  with and without the stroke contribution.
\<close>

record Graphics =
  g_strokeBounds :: Rectangle
  g_fillBounds :: Rectangle

definition Graphics_getContentBounds :: "Graphics \<Rightarrow> bool \<Rightarrow> Rectangle" where
  "Graphics_getContentBounds g includeStrokes =
     (if includeStrokes then g_strokeBounds g else g_fillBounds g)"

subsection \<open>Nodes and the store\<close>

text \<open>
  The runtime class of a node decides the three \<^verbatim>\<open>instanceof\<close> tests of the file.
  Modelled from the spec: the class declarations of \<^verbatim>\<open>Shape\<close>, \<^verbatim>\<open>Sprite\<close> and
  \<^verbatim>\<open>DisplayObjectContainer\<close> are not in the source file; a sprite is a container
  that also draws, a shape draws and holds no children.
\<close>

datatype node_class = PlainObject | Shape | Sprite | Container

definition instanceof_Shape :: "node_class \<Rightarrow> bool" where
  "instanceof_Shape k = (k = Shape)"

definition instanceof_Sprite :: "node_class \<Rightarrow> bool" where
  "instanceof_Sprite k = (k = Sprite)"

definition instanceof_DisplayObjectContainer :: "node_class \<Rightarrow> bool" where
  "instanceof_DisplayObjectContainer k = (k = Sprite \<or> k = Container)"

type_synonym flags = "32 word"
type_synonym ref = "nat option"

record DisplayObject =
  d_class :: node_class
  d_flags :: flags
  d_parent :: ref
  d_stage :: ref
  d_mask :: ref
  d_maskedObject :: ref
  d_children :: "nat list"
  d_matrix :: Matrix
  d_concatenatedMatrix :: Matrix
  d_colorTransform :: ColorTransform
  d_concatenatedColorTransform :: "ColorTransform option"
  d_bounds :: "Rectangle option"
  d_rect :: "Rectangle option"
  d_graphics :: "Graphics option"

type_synonym store = "nat \<Rightarrow> DisplayObject"

datatype error = AssertionError | ReferenceError | TypeError

subsection \<open>The enumerations Direction and DisplayObjectFlags\<close>

definition Upward :: "32 word" where "Upward = 1"
definition Downward :: "32 word" where "Downward = 2"

definition Flags_None :: flags where "Flags_None = 0x0000"
definition Visible :: flags where "Visible = 0x0001"
definition InvalidBounds :: flags where "InvalidBounds = 0x0004"
definition InvalidMatrix :: flags where "InvalidMatrix = 0x0008"
definition InvalidConcatenatedMatrix :: flags where "InvalidConcatenatedMatrix = 0x0010"
definition InvalidConcatenatedColorTransform :: flags where
  "InvalidConcatenatedColorTransform = 0x0020"
definition InvalidPaint :: flags where "InvalidPaint = 0x0040"
definition Constructed :: flags where "Constructed = 0x0080"
definition Destroyed :: flags where "Destroyed = 0x0100"
definition OwnedByTimeline :: flags where "OwnedByTimeline = 0x0200"
definition AnimatedByTimeline :: flags where "AnimatedByTimeline = 0x0400"
definition Invalid :: flags where "Invalid = 0x0800"
definition CacheAsBitmap :: flags where "CacheAsBitmap = 0x1000"

subsection \<open>The flag set\<close>

definition setFlags :: "flags \<Rightarrow> flags \<Rightarrow> flags" where
  "setFlags x f = x OR f"

definition toggleFlags :: "flags \<Rightarrow> flags \<Rightarrow> bool \<Rightarrow> flags" where
  "toggleFlags x f on = (if on then x OR f else x AND NOT f)"

definition removeFlags :: "flags \<Rightarrow> flags \<Rightarrow> flags" where
  "removeFlags x f = x AND NOT f"

definition hasFlags :: "flags \<Rightarrow> flags \<Rightarrow> bool" where
  "hasFlags x f = (x AND f = f)"

definition hasAnyFlags :: "flags \<Rightarrow> flags \<Rightarrow> bool" where
  "hasAnyFlags x f = (x AND f \<noteq> 0)"

text \<open>The same four methods, on the node at an address of the store.\<close>

definition node_setFlags :: "store \<Rightarrow> nat \<Rightarrow> flags \<Rightarrow> store" where
  "node_setFlags h n f = h(n := (h n)\<lparr>d_flags := setFlags (d_flags (h n)) f\<rparr>)"

definition node_removeFlags :: "store \<Rightarrow> nat \<Rightarrow> flags \<Rightarrow> store" where
  "node_removeFlags h n f = h(n := (h n)\<lparr>d_flags := removeFlags (d_flags (h n)) f\<rparr>)"

definition node_hasFlags :: "store \<Rightarrow> nat \<Rightarrow> flags \<Rightarrow> bool" where
  "node_hasFlags h n f = hasFlags (d_flags (h n)) f"

subsection \<open>The propagator\<close>

text \<open>
  The argument \<^verbatim>\<open>direction\<close> of \<^verbatim>\<open>_propagateFlags\<close> is a number of the
  enumeration, or \<^verbatim>\<open>undefined\<close> when the caller leaves it out (\<open>None\<close>).
  The operator \<^verbatim>\<open>&\<close> converts \<^verbatim>\<open>undefined\<close> to 0.
\<close>

definition direction_and :: "32 word option \<Rightarrow> 32 word \<Rightarrow> 32 word" where
  "direction_and direction k = (case direction of None \<Rightarrow> 0 | Some d \<Rightarrow> d AND k)"

text \<open>The loop \<^verbatim>\<open>while (node) { node._setFlags(flags); node = node._parent; }\<close>.\<close>

partial_function (option) setFlagsUpward :: "store \<Rightarrow> ref \<Rightarrow> flags \<Rightarrow> store option" where
  "setFlagsUpward h node f =
     (case node of
        None \<Rightarrow> Some h
      | Some i \<Rightarrow> (let h1 = node_setFlags h i f in setFlagsUpward h1 (d_parent (h1 i)) f))"

function propagateFlags :: "store \<Rightarrow> nat \<Rightarrow> flags \<Rightarrow> 32 word option \<Rightarrow> store option" where
  "propagateFlags h self f direction =
     (if node_hasFlags h self f then Some h
      else
        (let h1 = node_setFlags h self f in
         case (if direction_and direction Upward \<noteq> 0
               then setFlagsUpward h1 (d_parent (h1 self)) f
               else Some h1) of
           None \<Rightarrow> None
         | Some h2 \<Rightarrow>
             if direction_and direction Downward \<noteq> 0 then
               (if instanceof_DisplayObjectContainer (d_class (h2 self)) then
                  fold (\<lambda>child acc.
                          case acc of
                            None \<Rightarrow> None
                          | Some hc \<Rightarrow>
                              if node_hasFlags hc child f then Some hc
                              else propagateFlags hc child f None)
                       (d_children (h2 self)) (Some h2)
                else Some h2)
             else Some h2))"
  by pat_completeness auto
termination
  by (relation "measure (\<lambda>(h, self, f, direction). case direction of None \<Rightarrow> 0 | Some d \<Rightarrow> 1)")
     (auto simp: direction_and_def split: option.splits)

declare propagateFlags.simps [simp del]

subsection \<open>The tree navigator\<close>

partial_function (option) findFurthestAncestor_loop ::
  "store \<Rightarrow> ref \<Rightarrow> ref \<Rightarrow> flags \<Rightarrow> bool \<Rightarrow> ref \<Rightarrow> ref option" where
  "findFurthestAncestor_loop h node last' f on oldest =
     (case node of
        None \<Rightarrow> Some oldest
      | Some i \<Rightarrow>
          (let oldest1 = (if node_hasFlags h i f = on then Some i else oldest) in
           if node = last' then Some oldest1
           else findFurthestAncestor_loop h (d_parent (h i)) last' f on oldest1))"

definition findFurthestAncestor :: "store \<Rightarrow> nat \<Rightarrow> flags \<Rightarrow> bool \<Rightarrow> ref option" where
  "findFurthestAncestor h self f on =
     findFurthestAncestor_loop h (Some self) (d_stage (h self)) f on None"

partial_function (option) findClosestAncestor_loop ::
  "store \<Rightarrow> ref \<Rightarrow> ref \<Rightarrow> flags \<Rightarrow> bool \<Rightarrow> ref option" where
  "findClosestAncestor_loop h node last' f on =
     (case node of
        None \<Rightarrow> Some None
      | Some i \<Rightarrow>
          if node_hasFlags h i f = on then Some (Some i)
          else if node = last' then Some None
          else findClosestAncestor_loop h (d_parent (h i)) last' f on)"

definition findClosestAncestor :: "store \<Rightarrow> nat \<Rightarrow> flags \<Rightarrow> bool \<Rightarrow> ref option" where
  "findClosestAncestor h self f on =
     findClosestAncestor_loop h (Some self) (d_stage (h self)) f on"

partial_function (option) isAncestor_loop :: "store \<Rightarrow> ref \<Rightarrow> ref \<Rightarrow> bool option" where
  "isAncestor_loop h node ancestor =
     (case node of
        None \<Rightarrow> Some False
      | Some i \<Rightarrow>
          if node = ancestor then Some True
          else isAncestor_loop h (d_parent (h i)) ancestor)"

definition isAncestor :: "store \<Rightarrow> nat \<Rightarrow> ref \<Rightarrow> bool option" where
  "isAncestor h self ancestor = isAncestor_loop h (Some self) ancestor"

text \<open>
  \<^verbatim>\<open>_getAncestors(node, last)\<close> empties the shared buffer \<^verbatim>\<open>DisplayObject._path\<close>,
  fills it in the loop \<^verbatim>\<open>while (node && node === last)\<close> and returns it after the
  assertion \<^verbatim>\<open>assert (node === last, ...)\<close>. The buffer is emptied first, so the
  result is the list the loop builds; the loop returns that list and the node it
  stopped at. Modelled from the spec: \<^verbatim>\<open>Shumway.Debug.assert\<close> is not in the source
  file; a defensive check that does not hold fails the call.
\<close>

partial_function (option) getAncestors_loop ::
  "store \<Rightarrow> ref \<Rightarrow> ref \<Rightarrow> nat list \<Rightarrow> (nat list \<times> ref) option" where
  "getAncestors_loop h node last' path =
     (case node of
        None \<Rightarrow> Some (path, node)
      | Some i \<Rightarrow>
          if node = last' then getAncestors_loop h (d_parent (h i)) last' (path @ [i])
          else Some (path, node))"

definition getAncestors :: "store \<Rightarrow> ref \<Rightarrow> ref \<Rightarrow> (error + nat list) option" where
  "getAncestors h node last' =
     (case getAncestors_loop h node last' [] of
        None \<Rightarrow> None
      | Some (path, node1) \<Rightarrow>
          if node1 = last' then Some (Inr path) else Some (Inl AssertionError))"

text \<open>
  The hypothesis under which the walks return: the chain of \<^verbatim>\<open>_parent\<close> links that
  starts at a reference reaches \<^verbatim>\<open>null\<close> after at most \<open>k\<close> nodes.
\<close>

fun parentChainEnds :: "nat \<Rightarrow> store \<Rightarrow> ref \<Rightarrow> bool" where
  "parentChainEnds k h None = True"
| "parentChainEnds 0 h (Some i) = False"
| "parentChainEnds (Suc k) h (Some i) = parentChainEnds k h (d_parent (h i))"

subsection \<open>The concatenated matrix\<close>

text \<open>
  A matrix variable of the source holds a reference to a matrix object: a matrix made
  by \<^verbatim>\<open>new Matrix()\<close>, which no node owns, or the \<^verbatim>\<open>_matrix\<close> or the
  \<^verbatim>\<open>_concatenatedMatrix\<close> of a node. The methods \<^verbatim>\<open>concat\<close> and \<^verbatim>\<open>invert\<close>
  change the object they are called on, so a call through a reference to a node's
  matrix changes the store.
\<close>

datatype matrix_ref = FreshMatrix Matrix | MatrixOf nat | ConcatenatedMatrixOf nat

definition readMatrix :: "store \<Rightarrow> matrix_ref \<Rightarrow> Matrix" where
  "readMatrix h m =
     (case m of
        FreshMatrix v \<Rightarrow> v
      | MatrixOf n \<Rightarrow> d_matrix (h n)
      | ConcatenatedMatrixOf n \<Rightarrow> d_concatenatedMatrix (h n))"

definition updateMatrix :: "(Matrix \<Rightarrow> Matrix) \<Rightarrow> store \<Rightarrow> matrix_ref \<Rightarrow> store \<times> matrix_ref" where
  "updateMatrix g h m =
     (case m of
        FreshMatrix v \<Rightarrow> (h, FreshMatrix (g v))
      | MatrixOf n \<Rightarrow> (h(n := (h n)\<lparr>d_matrix := g (d_matrix (h n))\<rparr>), m)
      | ConcatenatedMatrixOf n \<Rightarrow>
          (h(n := (h n)\<lparr>d_concatenatedMatrix := g (d_concatenatedMatrix (h n))\<rparr>), m))"

text \<open>
  \<^verbatim>\<open>var ancestor\<close> is declared inside the second \<^verbatim>\<open>if\<close> of
  \<^verbatim>\<open>_getConcatenatedMatrix\<close> and of \<^verbatim>\<open>_getConcatenatedColorTransform\<close>, so the
  first test \<^verbatim>\<open>ancestor === this._parent\<close> compares \<^verbatim>\<open>undefined\<close> with a
  reference that is \<^verbatim>\<open>null\<close> or an object: it is false.
\<close>

definition undefined_strict_equals :: "ref \<Rightarrow> bool" where
  "undefined_strict_equals r = False"

text \<open>
  The loop \<^verbatim>\<open>for (var i = path.length - 1; i >= 0; i--)\<close> of
  \<^verbatim>\<open>_getConcatenatedMatrix\<close>, over the path in the order the loop visits it.
\<close>

fun getConcatenatedMatrix_loop ::
  "store \<Rightarrow> matrix_ref \<Rightarrow> nat list \<Rightarrow> store \<times> (error + unit)" where
  "getConcatenatedMatrix_loop h m [] = (h, Inr ())"
| "getConcatenatedMatrix_loop h m (ancestor # rest) =
     (if node_hasFlags h ancestor InvalidConcatenatedMatrix then
        (let (h1, m1) = updateMatrix (\<lambda>x. Matrix_concat x (d_matrix (h ancestor))) h m;
             h2 = h1(ancestor := (h1 ancestor)\<lparr>d_concatenatedMatrix := readMatrix h1 m1\<rparr>);
             h3 = node_removeFlags h2 ancestor InvalidConcatenatedMatrix
         in getConcatenatedMatrix_loop h3 m1 rest)
      else (h, Inl AssertionError))"

definition getConcatenatedMatrix :: "store \<Rightarrow> nat \<Rightarrow> (store \<times> (error + matrix_ref)) option" where
  "getConcatenatedMatrix h self =
     (if undefined_strict_equals (d_parent (h self)) then Some (h, Inr (MatrixOf self))
      else if node_hasFlags h self InvalidConcatenatedMatrix then
        (case findClosestAncestor h self InvalidConcatenatedMatrix False of
           None \<Rightarrow> None
         | Some ancestor \<Rightarrow>
             (case getAncestors h (Some self) ancestor of
                None \<Rightarrow> None
              | Some (Inl e) \<Rightarrow> Some (h, Inl e)
              | Some (Inr path) \<Rightarrow>
                  (let m = (case ancestor of
                              Some a \<Rightarrow> ConcatenatedMatrixOf a
                            | None \<Rightarrow> FreshMatrix Matrix_new)
                   in case getConcatenatedMatrix_loop h m (rev path) of
                        (h1, Inl e) \<Rightarrow> Some (h1, Inl e)
                      | (h1, Inr u) \<Rightarrow> Some (h1, Inr (ConcatenatedMatrixOf self)))))
      else Some (h, Inr (ConcatenatedMatrixOf self)))"

subsection \<open>The concatenated colour transform\<close>

text \<open>
  The initializer never assigns \<^verbatim>\<open>_concatenatedColorTransform\<close>, so the field of a
  node is a colour transform or \<^verbatim>\<open>undefined\<close> (\<open>None\<close>); a method call on
  \<^verbatim>\<open>undefined\<close> throws a TypeError.
\<close>

datatype color_ref =
  FreshColorTransform ColorTransform | ConcatenatedColorTransformOf nat | ColorTransformOf nat

definition readColorTransform :: "store \<Rightarrow> color_ref \<Rightarrow> ColorTransform option" where
  "readColorTransform h m =
     (case m of
        FreshColorTransform v \<Rightarrow> Some v
      | ConcatenatedColorTransformOf n \<Rightarrow> d_concatenatedColorTransform (h n)
      | ColorTransformOf n \<Rightarrow> Some (d_colorTransform (h n)))"

definition writeColorTransform :: "store \<Rightarrow> color_ref \<Rightarrow> ColorTransform \<Rightarrow> store \<times> color_ref" where
  "writeColorTransform h m v =
     (case m of
        FreshColorTransform w \<Rightarrow> (h, FreshColorTransform v)
      | ConcatenatedColorTransformOf n \<Rightarrow>
          (h(n := (h n)\<lparr>d_concatenatedColorTransform := Some v\<rparr>), m)
      | ColorTransformOf n \<Rightarrow> (h(n := (h n)\<lparr>d_colorTransform := v\<rparr>), m))"

fun getConcatenatedColorTransform_loop ::
  "store \<Rightarrow> color_ref \<Rightarrow> nat list \<Rightarrow> store \<times> (error + unit)" where
  "getConcatenatedColorTransform_loop h m [] = (h, Inr ())"
| "getConcatenatedColorTransform_loop h m (ancestor # rest) =
     (if node_hasFlags h ancestor InvalidConcatenatedColorTransform then
        (case readColorTransform h m of
           None \<Rightarrow> (h, Inl TypeError)
         | Some v \<Rightarrow>
             (let v1 = ColorTransform_concat v (d_colorTransform (h ancestor));
                  (h1, m1) = writeColorTransform h m v1
              in case d_concatenatedColorTransform (h1 ancestor) of
                   None \<Rightarrow> (h1, Inl TypeError)
                 | Some w \<Rightarrow>
                     (let h2 = h1(ancestor := (h1 ancestor)\<lparr>d_concatenatedColorTransform := Some v1\<rparr>);
                          h3 = node_removeFlags h2 ancestor InvalidConcatenatedColorTransform
                      in getConcatenatedColorTransform_loop h3 m1 rest)))
      else (h, Inl AssertionError))"

definition getConcatenatedColorTransform ::
  "store \<Rightarrow> nat \<Rightarrow> (store \<times> (error + color_ref)) option" where
  "getConcatenatedColorTransform h self =
     (if undefined_strict_equals (d_parent (h self)) then Some (h, Inr (ColorTransformOf self))
      else if node_hasFlags h self InvalidConcatenatedColorTransform then
        (case findClosestAncestor h self InvalidConcatenatedColorTransform False of
           None \<Rightarrow> None
         | Some ancestor \<Rightarrow>
             (case getAncestors h (Some self) ancestor of
                None \<Rightarrow> None
              | Some (Inl e) \<Rightarrow> Some (h, Inl e)
              | Some (Inr path) \<Rightarrow>
                  (let m = (case ancestor of
                              Some a \<Rightarrow> ConcatenatedColorTransformOf a
                            | None \<Rightarrow> FreshColorTransform ColorTransform_new)
                   in case getConcatenatedColorTransform_loop h m (rev path) of
                        (h1, Inl e) \<Rightarrow> Some (h1, Inl e)
                      | (h1, Inr u) \<Rightarrow> Some (h1, Inr (ConcatenatedColorTransformOf self)))))
      else Some (h, Inr (ConcatenatedColorTransformOf self)))"

subsection \<open>Invalidation\<close>

definition invalidateBounds :: "store \<Rightarrow> nat \<Rightarrow> store option" where
  "invalidateBounds h self = propagateFlags h self InvalidBounds (Some Upward)"

definition invalidatePaint :: "store \<Rightarrow> nat \<Rightarrow> store option" where
  "invalidatePaint h self = propagateFlags h self InvalidPaint (Some Upward)"

definition invalidatePosition :: "store \<Rightarrow> nat \<Rightarrow> store option" where
  "invalidatePosition h self =
     (let h1 = node_removeFlags h self AnimatedByTimeline in
      case propagateFlags h1 self InvalidConcatenatedMatrix (Some Downward) of
        None \<Rightarrow> None
      | Some h2 \<Rightarrow>
          (case d_parent (h2 self) of
             Some p \<Rightarrow> invalidateBounds h2 p
           | None \<Rightarrow> Some h2))"

definition setColorTransform :: "store \<Rightarrow> nat \<Rightarrow> ColorTransform \<Rightarrow> store option" where
  "setColorTransform h self colorTransform =
     (let h1 = h(self := (h self)\<lparr>d_colorTransform := colorTransform\<rparr>) in
      case propagateFlags h1 self InvalidConcatenatedColorTransform (Some Downward) of
        None \<Rightarrow> None
      | Some h2 \<Rightarrow> invalidatePaint h2 self)"

subsection \<open>Content bounds\<close>

text \<open>
  \<^verbatim>\<open>_getContentBounds\<close> works on the rectangle object \<^verbatim>\<open>_bounds\<close> or \<^verbatim>\<open>_rect\<close>
  of the node; the initializer sets \<^verbatim>\<open>_bounds\<close> to \<^verbatim>\<open>null\<close> and never assigns
  \<^verbatim>\<open>_rect\<close>, so the object can be missing (\<open>None\<close>) and a method call on it
  throws a TypeError. The loop over the children reads the identifier
  \<^verbatim>\<open>children\<close>, which no scope of the file declares (the method declares
  \<^verbatim>\<open>container\<close>): evaluating the loop condition throws a ReferenceError, so the
  body of the loop never runs.
\<close>

definition storeBounds :: "store \<Rightarrow> nat \<Rightarrow> bool \<Rightarrow> Rectangle \<Rightarrow> store" where
  "storeBounds h self includeStrokes r =
     (if includeStrokes then h(self := (h self)\<lparr>d_bounds := Some r\<rparr>)
      else h(self := (h self)\<lparr>d_rect := Some r\<rparr>))"

definition getContentBounds ::
  "store \<Rightarrow> nat \<Rightarrow> bool \<Rightarrow> store \<times> (error + Rectangle option)" where
  "getContentBounds h self includeStrokes =
     (let rectangle = (if includeStrokes then d_bounds (h self) else d_rect (h self)) in
      if node_hasFlags h self InvalidBounds then
        (case rectangle of
           None \<Rightarrow> (h, Inl TypeError)
         | Some r0 \<Rightarrow>
             (let r1 = Rectangle_setEmpty;
                  graphics =
                    (if instanceof_Shape (d_class (h self)) then d_graphics (h self)
                     else if instanceof_Sprite (d_class (h self)) then d_graphics (h self)
                     else None);
                  r2 = (case graphics of
                          Some g \<Rightarrow>
                            Rectangle_unionWith r1 (Graphics_getContentBounds g includeStrokes)
                        | None \<Rightarrow> r1);
                  h1 = storeBounds h self includeStrokes r2
              in if instanceof_DisplayObjectContainer (d_class (h1 self)) then
                   (h1, Inl ReferenceError)
                 else (node_removeFlags h1 self InvalidBounds, Inr (Some r2))))
      else (h, Inr rectangle))"

definition getTransformedBounds ::
  "store \<Rightarrow> nat \<Rightarrow> ref \<Rightarrow> bool \<Rightarrow> bool \<Rightarrow> (store \<times> (error + Rectangle)) option" where
  "getTransformedBounds h self targetCoordinateSpace includeStroke toPixels =
     (case getContentBounds h self includeStroke of
        (h1, Inl e) \<Rightarrow> Some (h1, Inl e)
      | (h1, Inr None) \<Rightarrow> Some (h1, Inl TypeError)
      | (h1, Inr (Some bounds)) \<Rightarrow>
          (case targetCoordinateSpace of
             None \<Rightarrow> Some (h1, Inr bounds)
           | Some target \<Rightarrow>
               if target = self \<or> Rectangle_isEmpty bounds then Some (h1, Inr bounds)
               else
                 (case getConcatenatedMatrix h1 target of
                    None \<Rightarrow> None
                  | Some (h2, Inl e) \<Rightarrow> Some (h2, Inl e)
                  | Some (h2, Inr t) \<Rightarrow>
                      (let (h3, t1) = updateMatrix Matrix_invert h2 t in
                       case getConcatenatedMatrix h3 self of
                         None \<Rightarrow> None
                       | Some (h4, Inl e) \<Rightarrow> Some (h4, Inl e)
                       | Some (h4, Inr own) \<Rightarrow>
                           (let (h5, t2) =
                                  updateMatrix (\<lambda>x. Matrix_concat x (readMatrix h4 own)) h4 t1;
                                b1 = transformRectAABB (readMatrix h5 t2) bounds;
                                b2 = (if toPixels then Rectangle_toPixels b1 else b1)
                            in Some (h5, Inr b2))))))"

subsection \<open>The setters\<close>

definition get_x :: "store \<Rightarrow> nat \<Rightarrow> real" where
  "get_x h self = m_tx (d_matrix (h self)) / 20"

definition set_x :: "store \<Rightarrow> nat \<Rightarrow> number \<Rightarrow> store option" where
  "set_x h self v =
     (let v1 = real_of_int (ToInt32 (times20 v)) in
      if v1 = m_tx (d_matrix (h self)) then Some h
      else invalidatePosition (h(self := (h self)\<lparr>d_matrix := (d_matrix (h self))\<lparr>m_tx := v1\<rparr>\<rparr>)) self)"

definition get_y :: "store \<Rightarrow> nat \<Rightarrow> real" where
  "get_y h self = m_ty (d_matrix (h self)) / 20"

definition set_y :: "store \<Rightarrow> nat \<Rightarrow> number \<Rightarrow> store option" where
  "set_y h self v =
     (let v1 = real_of_int (ToInt32 (times20 v)) in
      if v1 = m_ty (d_matrix (h self)) then Some h
      else invalidatePosition (h(self := (h self)\<lparr>d_matrix := (d_matrix (h self))\<lparr>m_ty := v1\<rparr>\<rparr>)) self)"

definition get_mask :: "store \<Rightarrow> nat \<Rightarrow> ref" where
  "get_mask h self = d_mask (h self)"

text \<open>
  The mask setter calls itself on the node that the new mask masked before, with the
  argument \<^verbatim>\<open>null\<close>; with that argument it makes no further call of itself.
\<close>

function set_mask :: "store \<Rightarrow> nat \<Rightarrow> ref \<Rightarrow> store option" where
  "set_mask h self v =
     (if d_mask (h self) = v \<or> v = Some self then Some h
      else
        (case (case v of
                 Some m \<Rightarrow>
                   (case d_maskedObject (h m) of
                      Some masked \<Rightarrow> set_mask h masked None
                    | None \<Rightarrow> Some h)
               | None \<Rightarrow> Some h) of
           None \<Rightarrow> None
         | Some h1 \<Rightarrow>
             (let h2 = h1(self := (h1 self)\<lparr>d_mask := v\<rparr>);
                  h3 = (case v of
                          Some m \<Rightarrow> h2(m := (h2 m)\<lparr>d_maskedObject := Some self\<rparr>)
                        | None \<Rightarrow> h2)
              in invalidatePaint h3 self)))"
  by pat_completeness auto
termination
  by (relation "measure (\<lambda>(h, self, v). case v of None \<Rightarrow> 0 | Some m \<Rightarrow> 1)") auto

declare set_mask.simps [simp del]

definition get_visible :: "store \<Rightarrow> nat \<Rightarrow> bool" where
  "get_visible h self = node_hasFlags h self Visible"

definition set_visible :: "store \<Rightarrow> nat \<Rightarrow> bool \<Rightarrow> store" where
  "set_visible h self v =
     (if v = node_hasFlags h self Visible then h
      else node_removeFlags (node_setFlags h self Visible) self AnimatedByTimeline)"

subsection \<open>Construction and example display lists\<close>

text \<open>
  The instance initializer, called without a symbol: every flag clear, no parent, no
  stage, no mask, identity matrices, \<^verbatim>\<open>_bounds\<close> set to \<^verbatim>\<open>null\<close>, and
  \<^verbatim>\<open>_rect\<close> and \<^verbatim>\<open>_concatenatedColorTransform\<close> never assigned.
\<close>

definition initializer :: "node_class \<Rightarrow> DisplayObject" where
  "initializer k =
     \<lparr>d_class = k, d_flags = Flags_None, d_parent = None, d_stage = None, d_mask = None,
      d_maskedObject = None, d_children = [], d_matrix = Matrix_new,
      d_concatenatedMatrix = Matrix_new, d_colorTransform = ColorTransform_new,
      d_concatenatedColorTransform = None, d_bounds = None, d_rect = None,
      d_graphics = None\<rparr>"

text \<open>A store of freshly constructed nodes, none of them linked to another.\<close>

definition fresh_nodes :: store where
  "fresh_nodes = (\<lambda>i. initializer PlainObject)"

text \<open>
  The tree drawn in the comment above \<^verbatim>\<open>DisplayObjectFlags\<close>: A (0) holds B (1) and
  C (2), and C holds D (3) and E (4).
\<close>

definition tree_ABCDE :: store where
  "tree_ABCDE =
     fresh_nodes
       (0 := (initializer Container)\<lparr>d_children := [1, 2]\<rparr>,
        1 := (initializer PlainObject)\<lparr>d_parent := Some 0\<rparr>,
        2 := (initializer Container)\<lparr>d_parent := Some 0, d_children := [3, 4]\<rparr>,
        3 := (initializer PlainObject)\<lparr>d_parent := Some 2\<rparr>,
        4 := (initializer PlainObject)\<lparr>d_parent := Some 2\<rparr>)"

text \<open>The scenario of the spec: a root R (0) holds A (1), and A holds B (2).\<close>

definition chain_RAB :: store where
  "chain_RAB =
     fresh_nodes
       (0 := (initializer Container)\<lparr>d_children := [1]\<rparr>,
        1 := (initializer Container)\<lparr>d_parent := Some 0, d_children := [2]\<rparr>,
        2 := (initializer PlainObject)\<lparr>d_parent := Some 1\<rparr>)"

text \<open>
  The same chain after \<^verbatim>\<open>A.x = 10\<close> and \<^verbatim>\<open>B.y = 5\<close>: the translations are stored
  in twips, A and B carry InvalidConcatenatedMatrix, R and A carry InvalidBounds.
\<close>

definition chain_RAB_moved :: store where
  "chain_RAB_moved =
     fresh_nodes
       (0 := (initializer Container)\<lparr>d_children := [1], d_flags := 0x04\<rparr>,
        1 := (initializer Container)\<lparr>d_parent := Some 0, d_children := [2], d_flags := 0x14,
               d_matrix := Matrix_new\<lparr>m_tx := 200\<rparr>\<rparr>,
        2 := (initializer PlainObject)\<lparr>d_parent := Some 1, d_flags := 0x10,
               d_matrix := Matrix_new\<lparr>m_ty := 100\<rparr>\<rparr>)"

text \<open>The chain with both concatenated caches of A and B marked invalid.\<close>

definition chain_RAB_dirty :: store where
  "chain_RAB_dirty =
     fresh_nodes
       (0 := (initializer Container)\<lparr>d_children := [1]\<rparr>,
        1 := (initializer Container)\<lparr>d_parent := Some 0, d_children := [2], d_flags := 0x30,
               d_matrix := Matrix_new\<lparr>m_tx := 200\<rparr>\<rparr>,
        2 := (initializer PlainObject)\<lparr>d_parent := Some 1, d_flags := 0x30,
               d_matrix := Matrix_new\<lparr>m_ty := 100\<rparr>\<rparr>)"

text \<open>The chain with InvalidBounds on every node.\<close>

definition chain_RAB_marked :: store where
  "chain_RAB_marked =
     fresh_nodes
       (0 := (initializer Container)\<lparr>d_children := [1], d_flags := 0x04\<rparr>,
        1 := (initializer Container)\<lparr>d_parent := Some 0, d_children := [2], d_flags := 0x04\<rparr>,
        2 := (initializer PlainObject)\<lparr>d_parent := Some 1, d_flags := 0x04\<rparr>)"

text \<open>Node 0 masked by node 1, as \<^verbatim>\<open>node0.mask = node1\<close> leaves fresh nodes.\<close>

definition masked_once :: store where
  "masked_once =
     fresh_nodes
       (0 := (initializer PlainObject)\<lparr>d_mask := Some 1, d_flags := 0x40\<rparr>,
        1 := (initializer PlainObject)\<lparr>d_maskedObject := Some 0\<rparr>)"

text \<open>
  A container (0) whose bounds are invalid, with one child (1) whose bounds are the
  rectangle (0, 0, 10, 10).
\<close>

definition parent_and_child :: store where
  "parent_and_child =
     fresh_nodes
       (0 := (initializer Container)\<lparr>d_children := [1], d_flags := InvalidBounds,
               d_bounds := Some Rectangle_setEmpty\<rparr>,
        1 := (initializer PlainObject)\<lparr>d_parent := Some 0,
               d_bounds := Some \<lparr>r_x = 0, r_y = 0, r_width = 10, r_height = 10\<rparr>\<rparr>)"

text \<open>
  A node (0) with bounds (0, 0, 10, 10) and a target node (1) as \<^verbatim>\<open>target.x = 1\<close>
  leaves it: moved by 20 twips, its concatenated matrix marked invalid.
\<close>

definition node_and_target :: store where
  "node_and_target =
     fresh_nodes
       (0 := (initializer PlainObject)
               \<lparr>d_bounds := Some \<lparr>r_x = 0, r_y = 0, r_width = 10, r_height = 10\<rparr>\<rparr>,
        1 := (initializer PlainObject)\<lparr>d_flags := InvalidConcatenatedMatrix,
               d_matrix := Matrix_new\<lparr>m_tx := 20\<rparr>\<rparr>)"

text \<open>
  A visible node (0) that the timeline animates, at x = 10 and y = 5 (200 and 100
  twips).
\<close>

definition animated_node :: store where
  "animated_node =
     fresh_nodes
       (0 := (initializer PlainObject)\<lparr>d_flags := 0x0401,
               d_matrix := Matrix_new\<lparr>m_tx := 200, m_ty := 100\<rparr>\<rparr>)"

text \<open>The chain after \<^verbatim>\<open>A.x = 10\<close> alone.\<close>

definition chain_RAB_A_moved :: store where
  "chain_RAB_A_moved =
     fresh_nodes
       (0 := (initializer Container)\<lparr>d_children := [1], d_flags := 0x04\<rparr>,
        1 := (initializer Container)\<lparr>d_parent := Some 0, d_children := [2], d_flags := 0x10,
               d_matrix := Matrix_new\<lparr>m_tx := 200\<rparr>\<rparr>,
        2 := (initializer PlainObject)\<lparr>d_parent := Some 1, d_flags := 0x10\<rparr>)"

text \<open>
  The tree of A, B, C, D and E with InvalidConcatenatedMatrix on A, B and C and on
  neither D nor E.
\<close>

definition tree_ABCDE_marked :: store where
  "tree_ABCDE_marked =
     fresh_nodes
       (0 := (initializer Container)\<lparr>d_children := [1, 2], d_flags := 0x10\<rparr>,
        1 := (initializer PlainObject)\<lparr>d_parent := Some 0, d_flags := 0x10\<rparr>,
        2 := (initializer Container)\<lparr>d_parent := Some 0, d_children := [3, 4],
               d_flags := 0x10\<rparr>,
        3 := (initializer PlainObject)\<lparr>d_parent := Some 2\<rparr>,
        4 := (initializer PlainObject)\<lparr>d_parent := Some 2\<rparr>)"

text \<open>
  A node (0) with bounds (0, 0, 10, 10) and a target node (1) moved by 20 twips, every
  cache of both valid.
\<close>

definition clean_pair :: store where
  "clean_pair =
     fresh_nodes
       (0 := (initializer PlainObject)
               \<lparr>d_bounds := Some \<lparr>r_x = 0, r_y = 0, r_width = 10, r_height = 10\<rparr>\<rparr>,
        1 := (initializer PlainObject)
               \<lparr>d_matrix := Matrix_new\<lparr>m_tx := 20\<rparr>,
                d_concatenatedMatrix := Matrix_new\<lparr>m_tx := 20\<rparr>\<rparr>)"

text \<open>
  Two stores are related when they differ in nothing but the flags of their nodes:
  this is all that the propagator may change.
\<close>

definition onlyFlagsDiffer :: "store \<Rightarrow> store \<Rightarrow> bool" where
  "onlyFlagsDiffer h h' = (\<forall>j. h' j = (h j)\<lparr>d_flags := d_flags (h' j)\<rparr>)"

section \<open>Properties\<close>

subsection \<open>Flags\<close>

lemma hasFlags_setFlags: "hasFlags (setFlags x f) f"
  by (simp add: hasFlags_def setFlags_def bit_eq_iff bit_simps)

lemma hasFlags_setFlags_mono: "hasFlags x f \<Longrightarrow> hasFlags (setFlags x g) f"
  unfolding hasFlags_def setFlags_def
  by (auto simp add: bit_eq_iff bit_simps)

lemma hasFlags_removeFlags_disjoint:
  "f AND g = 0 \<Longrightarrow> hasFlags x f \<Longrightarrow> hasFlags (removeFlags x g) f"
  unfolding hasFlags_def removeFlags_def
  by (auto simp add: bit_eq_iff bit_simps)

lemma node_hasFlags_node_setFlags: "node_hasFlags (node_setFlags h n f) n f"
  by (simp add: node_hasFlags_def node_setFlags_def hasFlags_setFlags)

lemma node_hasFlags_node_setFlags_mono:
  "node_hasFlags h j g \<Longrightarrow> node_hasFlags (node_setFlags h n f) j g"
  by (auto simp add: node_hasFlags_def node_setFlags_def intro: hasFlags_setFlags_mono)

lemma d_parent_node_setFlags: "d_parent (node_setFlags h n f j) = d_parent (h j)"
  by (simp add: node_setFlags_def)

subsection \<open>Stores that differ in flags only\<close>

lemma onlyFlagsDiffer_refl: "onlyFlagsDiffer h h"
  by (simp add: onlyFlagsDiffer_def)

lemma onlyFlagsDiffer_trans:
  "onlyFlagsDiffer h h1 \<Longrightarrow> onlyFlagsDiffer h1 h2 \<Longrightarrow> onlyFlagsDiffer h h2"
  unfolding onlyFlagsDiffer_def
proof
  fix j
  assume a: "\<forall>j. h1 j = (h j)\<lparr>d_flags := d_flags (h1 j)\<rparr>"
    and b: "\<forall>j. h2 j = (h1 j)\<lparr>d_flags := d_flags (h2 j)\<rparr>"
  have "h2 j = (h1 j)\<lparr>d_flags := d_flags (h2 j)\<rparr>" using b by blast
  also have "h1 j = (h j)\<lparr>d_flags := d_flags (h1 j)\<rparr>" using a by blast
  finally show "h2 j = (h j)\<lparr>d_flags := d_flags (h2 j)\<rparr>" by simp
qed

lemma onlyFlagsDiffer_node_setFlags: "onlyFlagsDiffer h (node_setFlags h n f)"
  by (simp add: onlyFlagsDiffer_def node_setFlags_def)

lemma onlyFlagsDiffer_fields:
  assumes "onlyFlagsDiffer h h'"
  shows "d_parent (h' j) = d_parent (h j)"
    and "d_mask (h' j) = d_mask (h j)"
    and "d_maskedObject (h' j) = d_maskedObject (h j)"
proof -
  from assms have e: "h' j = (h j)\<lparr>d_flags := d_flags (h' j)\<rparr>"
    by (simp add: onlyFlagsDiffer_def)
  show "d_parent (h' j) = d_parent (h j)" by (subst e) simp
  show "d_mask (h' j) = d_mask (h j)" by (subst e) simp
  show "d_maskedObject (h' j) = d_maskedObject (h j)" by (subst e) simp
qed

subsection \<open>Chains of parents\<close>

lemma parentChainEnds_cong:
  "(\<And>j. d_parent (h' j) = d_parent (h j)) \<Longrightarrow> parentChainEnds k h' r = parentChainEnds k h r"
proof (induction k arbitrary: r)
  case 0
  then show ?case by (cases r) simp_all
next
  case (Suc k)
  then show ?case by (cases r) simp_all
qed

lemma parentChainEnds_Suc: "parentChainEnds k h r \<Longrightarrow> parentChainEnds (Suc k) h r"
proof (induction k arbitrary: r)
  case 0
  then show ?case by (cases r) simp_all
next
  case (Suc k)
  then show ?case by (cases r) simp_all
qed

lemma parentChainEnds_parent:
  "parentChainEnds k h (Some n) \<Longrightarrow> parentChainEnds k h (d_parent (h n))"
  by (cases k) (simp_all add: parentChainEnds_Suc)

subsection \<open>The upward walk of the propagator\<close>

lemma setFlagsUpward_returns:
  "parentChainEnds k h node \<Longrightarrow> \<exists>h'. setFlagsUpward h node f = Some h'"
proof (induction k arbitrary: h node)
  case 0
  then show ?case by (cases node) (simp_all add: setFlagsUpward.simps)
next
  case (Suc k)
  show ?case
  proof (cases node)
    case None
    then show ?thesis by (simp add: setFlagsUpward.simps)
  next
    case (Some i)
    with Suc.prems have "parentChainEnds k h (d_parent (h i))" by simp
    then have "parentChainEnds k (node_setFlags h i f) (d_parent (node_setFlags h i f i))"
      by (simp add: d_parent_node_setFlags parentChainEnds_cong [of "node_setFlags h i f" h])
    from Suc.IH [OF this] obtain h' where
      "setFlagsUpward (node_setFlags h i f) (d_parent (node_setFlags h i f i)) f = Some h'"
      by blast
    with Some show ?thesis by (subst setFlagsUpward.simps) simp
  qed
qed

lemma setFlagsUpward_mono_all:
  "setFlagsUpward h node f = Some h' \<Longrightarrow>
   \<forall>j g. node_hasFlags h j g \<longrightarrow> node_hasFlags h' j g"
  by (induction rule: setFlagsUpward.raw_induct [rotated 1, consumes 1])
     (auto split: option.splits simp: Let_def node_hasFlags_node_setFlags_mono)

lemma setFlagsUpward_mono:
  "setFlagsUpward h node f = Some h' \<Longrightarrow> node_hasFlags h j g \<Longrightarrow> node_hasFlags h' j g"
  using setFlagsUpward_mono_all by blast

lemma setFlagsUpward_onlyFlags:
  "setFlagsUpward h node f = Some h' \<Longrightarrow> onlyFlagsDiffer h h'"
proof (induction rule: setFlagsUpward.raw_induct [rotated 1, consumes 1])
  case (1 S h node f h')
  show ?case
  proof (cases node)
    case None
    with 1 show ?thesis by (simp add: onlyFlagsDiffer_refl)
  next
    case (Some i)
    with 1 have "onlyFlagsDiffer (node_setFlags h i f) h'" by (simp add: Let_def)
    then show ?thesis
      using onlyFlagsDiffer_trans [OF onlyFlagsDiffer_node_setFlags] by blast
  qed
qed

subsection \<open>The propagator\<close>

text \<open>
  The call \<^verbatim>\<open>children[i]._propagateFlags(flags)\<close> passes no direction: it sets the
  flags on the child and walks nowhere.
\<close>

lemma propagateFlags_None:
  "propagateFlags h c f None = Some (if node_hasFlags h c f then h else node_setFlags h c f)"
  by (simp add: propagateFlags.simps direction_and_def)

lemma fold_children:
  "\<exists>h'. fold (\<lambda>child acc. case acc of None \<Rightarrow> None
                 | Some hc \<Rightarrow> if node_hasFlags hc child f then Some hc
                             else propagateFlags hc child f None) cs (Some h) = Some h'
        \<and> (\<forall>j g. node_hasFlags h j g \<longrightarrow> node_hasFlags h' j g)
        \<and> onlyFlagsDiffer h h'"
proof (induction cs arbitrary: h)
  case Nil
  then show ?case by (simp add: onlyFlagsDiffer_refl)
next
  case (Cons c cs)
  show ?case
  proof (cases "node_hasFlags h c f")
    case True
    then show ?thesis using Cons.IH [of h] by simp
  next
    case False
    from Cons.IH [of "node_setFlags h c f"] obtain h' where
      h': "fold (\<lambda>child acc. case acc of None \<Rightarrow> None
                 | Some hc \<Rightarrow> if node_hasFlags hc child f then Some hc
                             else propagateFlags hc child f None) cs
             (Some (node_setFlags h c f)) = Some h'"
      "\<forall>j g. node_hasFlags (node_setFlags h c f) j g \<longrightarrow> node_hasFlags h' j g"
      "onlyFlagsDiffer (node_setFlags h c f) h'" by blast
    show ?thesis
      using False h' onlyFlagsDiffer_trans [OF onlyFlagsDiffer_node_setFlags h'(3)]
      by (auto simp: propagateFlags_None node_hasFlags_node_setFlags_mono)
  qed
qed

lemma propagateFlags_result:
  assumes "propagateFlags h n f d = Some h'"
  shows "node_hasFlags h' n f \<and> (\<forall>j g. node_hasFlags h j g \<longrightarrow> node_hasFlags h' j g)
         \<and> onlyFlagsDiffer h h'"
proof (cases "node_hasFlags h n f")
  case True
  with assms show ?thesis by (simp add: propagateFlags.simps onlyFlagsDiffer_refl)
next
  case False
  let ?h1 = "node_setFlags h n f"
  let ?up = "if direction_and d Upward \<noteq> 0
             then setFlagsUpward ?h1 (d_parent (?h1 n)) f else Some ?h1"
  from assms False obtain h2 where h2: "?up = Some h2"
    by (cases ?up) (simp_all add: propagateFlags.simps Let_def)
  have m12: "\<forall>j g. node_hasFlags ?h1 j g \<longrightarrow> node_hasFlags h2 j g"
    using h2 setFlagsUpward_mono by (auto split: if_splits)
  have o12: "onlyFlagsDiffer ?h1 h2"
    using h2 setFlagsUpward_onlyFlags by (auto split: if_splits simp: onlyFlagsDiffer_refl)
  have m01: "\<forall>j g. node_hasFlags h j g \<longrightarrow> node_hasFlags ?h1 j g"
    by (simp add: node_hasFlags_node_setFlags_mono)
  have o01: "onlyFlagsDiffer h ?h1" by (simp add: onlyFlagsDiffer_node_setFlags)
  have n1: "node_hasFlags ?h1 n f" by (simp add: node_hasFlags_node_setFlags)
  from fold_children [of f "d_children (h2 n)" h2] obtain h3 where
    h3: "fold (\<lambda>child acc. case acc of None \<Rightarrow> None
                 | Some hc \<Rightarrow> if node_hasFlags hc child f then Some hc
                             else propagateFlags hc child f None)
           (d_children (h2 n)) (Some h2) = Some h3"
      "\<forall>j g. node_hasFlags h2 j g \<longrightarrow> node_hasFlags h3 j g" "onlyFlagsDiffer h2 h3" by blast
  have "propagateFlags h n f d =
     (if direction_and d Downward \<noteq> 0 then
        (if instanceof_DisplayObjectContainer (d_class (h2 n)) then Some h3 else Some h2)
      else Some h2)"
    using False h2 h3(1) by (subst propagateFlags.simps) (simp add: Let_def)
  with assms have "h' = h2 \<or> h' = h3"
    by (auto split: if_splits)
  then show ?thesis
    using m01 m12 h3(2) n1 o01 o12 h3(3) onlyFlagsDiffer_trans by blast
qed

lemma propagateFlags_returns:
  assumes "parentChainEnds k h (d_parent (h n))"
  shows "\<exists>h'. propagateFlags h n f d = Some h'"
proof (cases "node_hasFlags h n f")
  case True
  then show ?thesis by (simp add: propagateFlags.simps)
next
  case False
  let ?h1 = "node_setFlags h n f"
  let ?up = "if direction_and d Upward \<noteq> 0
             then setFlagsUpward ?h1 (d_parent (?h1 n)) f else Some ?h1"
  have "parentChainEnds k ?h1 (d_parent (?h1 n))"
    using assms
    by (simp add: d_parent_node_setFlags parentChainEnds_cong [of "node_setFlags h n f" h])
  then obtain hu where hu: "setFlagsUpward ?h1 (d_parent (?h1 n)) f = Some hu"
    using setFlagsUpward_returns by blast
  then obtain h2 where h2: "?up = Some h2"
    by (cases "direction_and d Upward \<noteq> 0") simp_all
  from fold_children [of f "d_children (h2 n)" h2] obtain h3 where
    h3: "fold (\<lambda>child acc. case acc of None \<Rightarrow> None
                 | Some hc \<Rightarrow> if node_hasFlags hc child f then Some hc
                             else propagateFlags hc child f None)
           (d_children (h2 n)) (Some h2) = Some h3" by blast
  have "propagateFlags h n f d =
     (if direction_and d Downward \<noteq> 0 then
        (if instanceof_DisplayObjectContainer (d_class (h2 n)) then Some h3 else Some h2)
      else Some h2)"
    using False h2 h3(1) by (subst propagateFlags.simps) (simp add: Let_def)
  then show ?thesis by simp
qed

lemma invalidatePaint_onlyFlags: "invalidatePaint h n = Some h' \<Longrightarrow> onlyFlagsDiffer h h'"
  by (simp add: invalidatePaint_def propagateFlags_result)

lemma invalidatePaint_returns:
  "parentChainEnds k h (Some n) \<Longrightarrow> \<exists>h'. invalidatePaint h n = Some h'"
  unfolding invalidatePaint_def
  by (rule propagateFlags_returns) (rule parentChainEnds_parent)

subsection \<open>Idempotent propagation\<close>

text \<open>
  Claim C5. For every node, every flag and every direction (upward, downward, both,
  or none given), a call of \<^verbatim>\<open>_propagateFlags\<close> that returns leaves a store on which
  the same call returns at once and changes nothing: propagating twice is propagating
  once. The call returns whenever the chain of parents above the node is finite.
\<close>

theorem propagateFlags_idempotent:
  "(propagateFlags h n f d = Some h' \<longrightarrow> propagateFlags h' n f d = Some h') \<and>
   (parentChainEnds k h (d_parent (h n)) \<longrightarrow>
      (\<exists>h1. propagateFlags h n f d = Some h1 \<and> propagateFlags h1 n f d = Some h1))"
proof (intro conjI impI)
  assume "propagateFlags h n f d = Some h'"
  then have "node_hasFlags h' n f" by (simp add: propagateFlags_result)
  then show "propagateFlags h' n f d = Some h'" by (simp add: propagateFlags.simps)
next
  assume "parentChainEnds k h (d_parent (h n))"
  then obtain h1 where h1: "propagateFlags h n f d = Some h1"
    using propagateFlags_returns by blast
  then have "node_hasFlags h1 n f" by (simp add: propagateFlags_result)
  then have "propagateFlags h1 n f d = Some h1" by (simp add: propagateFlags.simps)
  with h1 show "\<exists>h1. propagateFlags h n f d = Some h1 \<and> propagateFlags h1 n f d = Some h1"
    by blast
qed

text \<open>
  On the chain R, A, B: invalidating the bounds of A in both directions marks R, A and
  B, and doing it again changes nothing.
\<close>

theorem propagateFlags_idempotent_witness:
  "propagateFlags chain_RAB 1 InvalidBounds (Some 3) = Some chain_RAB_marked \<and>
   parentChainEnds 1 chain_RAB (d_parent (chain_RAB 1)) \<and>
   propagateFlags chain_RAB_marked 1 InvalidBounds (Some 3) = Some chain_RAB_marked"
proof -
  have first: "propagateFlags chain_RAB 1 InvalidBounds (Some 3) = Some chain_RAB_marked"
    by (simp add: propagateFlags.simps setFlagsUpward.simps chain_RAB_def chain_RAB_marked_def
        fresh_nodes_def initializer_def node_hasFlags_def node_setFlags_def hasFlags_def
        setFlags_def direction_and_def Upward_def Downward_def Flags_None_def
        InvalidBounds_def instanceof_DisplayObjectContainer_def Let_def fun_eq_iff)
  have ends: "parentChainEnds 1 chain_RAB (d_parent (chain_RAB 1))"
    by (simp add: chain_RAB_def fresh_nodes_def initializer_def)
  from first
    propagateFlags_idempotent [of chain_RAB 1 InvalidBounds "Some 3" chain_RAB_marked 1]
  have "propagateFlags chain_RAB_marked 1 InvalidBounds (Some 3) = Some chain_RAB_marked"
    by blast
  with first ends show ?thesis by simp
qed

subsection \<open>The setters of visible, x and y\<close>

text \<open>
  Claim C9. The setter of \<^verbatim>\<open>visible\<close> never clears the Visible flag: a node that
  has the flag has it after every call of the setter, on this node or on any other,
  with \<^verbatim>\<open>true\<close> or with \<^verbatim>\<open>false\<close>.
\<close>

theorem set_visible_keeps_Visible:
  "node_hasFlags h j Visible \<Longrightarrow> node_hasFlags (set_visible h n v) j Visible"
proof -
  assume a: "node_hasFlags h j Visible"
  have "Visible AND AnimatedByTimeline = 0"
    by (simp add: Visible_def AnimatedByTimeline_def)
  then have "hasFlags x Visible \<Longrightarrow> hasFlags (removeFlags (setFlags x Visible) AnimatedByTimeline) Visible"
    for x
    by (simp add: hasFlags_removeFlags_disjoint hasFlags_setFlags)
  with a show ?thesis
    by (auto simp add: set_visible_def node_hasFlags_def node_removeFlags_def node_setFlags_def)
qed

theorem set_visible_keeps_Visible_witness:
  "node_hasFlags animated_node 0 Visible \<and>
   node_hasFlags (set_visible animated_node 0 False) 0 Visible \<and>
   set_visible animated_node 0 False = node_removeFlags animated_node 0 AnimatedByTimeline"
proof -
  have a: "node_hasFlags animated_node 0 Visible"
    by (simp add: animated_node_def node_hasFlags_def hasFlags_def Visible_def)
  from set_visible_keeps_Visible [OF a, of 0 False]
  have b: "node_hasFlags (set_visible animated_node 0 False) 0 Visible" .
  have c: "set_visible animated_node 0 False = node_removeFlags animated_node 0 AnimatedByTimeline"
    by (simp add: set_visible_def animated_node_def node_hasFlags_def hasFlags_def Visible_def
        node_removeFlags_def node_setFlags_def setFlags_def removeFlags_def
        AnimatedByTimeline_def fun_eq_iff)
  from a b c show ?thesis by simp
qed

text \<open>
  Claim C10. A call of the setter of \<^verbatim>\<open>x\<close> (of \<^verbatim>\<open>y\<close>) with a number whose
  twips \<^verbatim>\<open>(value * 20) | 0\<close> equal the stored \<^verbatim>\<open>_matrix.tx\<close> (\<^verbatim>\<open>_matrix.ty\<close>)
  returns the store it was given: no field and no flag of any node changes, and
  AnimatedByTimeline stays as it was.
\<close>

theorem set_x_set_y_unchanged:
  "(real_of_int (ToInt32 (times20 v)) = m_tx (d_matrix (h n)) \<longrightarrow> set_x h n v = Some h) \<and>
   (real_of_int (ToInt32 (times20 v)) = m_ty (d_matrix (h n)) \<longrightarrow> set_y h n v = Some h)"
  by (simp add: set_x_def set_y_def)

theorem set_x_set_y_unchanged_witness:
  "real_of_int (ToInt32 (times20 (Finite 10))) = m_tx (d_matrix (animated_node 0)) \<and>
   set_x animated_node 0 (Finite 10) = Some animated_node \<and>
   real_of_int (ToInt32 (times20 (Finite 5))) = m_ty (d_matrix (animated_node 0)) \<and>
   set_y animated_node 0 (Finite 5) = Some animated_node \<and>
   node_hasFlags animated_node 0 AnimatedByTimeline"
proof -
  have a: "real_of_int (ToInt32 (times20 (Finite 10))) = m_tx (d_matrix (animated_node 0))"
    by (simp add: ToInt32_def times20_def animated_node_def)
  have b: "real_of_int (ToInt32 (times20 (Finite 5))) = m_ty (d_matrix (animated_node 0))"
    by (simp add: ToInt32_def times20_def animated_node_def)
  have c: "node_hasFlags animated_node 0 AnimatedByTimeline"
    by (simp add: animated_node_def node_hasFlags_def hasFlags_def AnimatedByTimeline_def)
  from a set_x_set_y_unchanged [of "Finite 10" animated_node 0]
  have x: "set_x animated_node 0 (Finite 10) = Some animated_node" by blast
  from b set_x_set_y_unchanged [of "Finite 5" animated_node 0]
  have y: "set_y animated_node 0 (Finite 5) = Some animated_node" by blast
  from a b c x y show ?thesis by simp
qed

subsection \<open>The tree navigator\<close>

lemma findClosestAncestor_loop_returns:
  "parentChainEnds k h node \<Longrightarrow> \<exists>r. findClosestAncestor_loop h node l f on = Some r"
proof (induction k arbitrary: node)
  case 0
  then show ?case by (cases node) (simp_all add: findClosestAncestor_loop.simps)
next
  case (Suc k)
  show ?case
  proof (cases node)
    case None
    then show ?thesis by (simp add: findClosestAncestor_loop.simps)
  next
    case (Some i)
    with Suc.prems have "parentChainEnds k h (d_parent (h i))" by simp
    from Suc.IH [OF this] obtain r where
      "findClosestAncestor_loop h (d_parent (h i)) l f on = Some r" by blast
    with Some show ?thesis by (subst findClosestAncestor_loop.simps) simp
  qed
qed

lemma findClosestAncestor_returns:
  "parentChainEnds k h (Some n) \<Longrightarrow> \<exists>r. findClosestAncestor h n f on = Some r"
  unfolding findClosestAncestor_def by (rule findClosestAncestor_loop_returns)

lemma findClosestAncestor_loop_flag_all:
  "findClosestAncestor_loop h node l f on = Some r \<Longrightarrow>
   \<forall>a. r = Some a \<longrightarrow> node_hasFlags h a f = on"
  by (induction rule: findClosestAncestor_loop.raw_induct [rotated 1, consumes 1])
     (auto split: option.splits if_splits)

lemma findClosestAncestor_not_self:
  "node_hasFlags h n f \<Longrightarrow> findClosestAncestor h n f False = Some a \<Longrightarrow> a \<noteq> Some n"
  using findClosestAncestor_loop_flag_all [of h "Some n" "d_stage (h n)" f False a]
  by (auto simp: findClosestAncestor_def)

text \<open>
  The loop of \<^verbatim>\<open>_getAncestors\<close> runs while \<^verbatim>\<open>node === last\<close>. Called on a node
  and a different \<^verbatim>\<open>last\<close>, it does not run once, and the assertion
  \<^verbatim>\<open>node === last\<close> that follows it fails.
\<close>

lemma getAncestors_other:
  "last' \<noteq> Some n \<Longrightarrow> getAncestors h (Some n) last' = Some (Inl AssertionError)"
  by (auto simp add: getAncestors_def getAncestors_loop.simps)

lemma getAncestors_self:
  "d_parent (h n) \<noteq> Some n \<Longrightarrow> getAncestors h (Some n) (Some n) = Some (Inl AssertionError)"
proof -
  assume a: "d_parent (h n) \<noteq> Some n"
  have "getAncestors_loop h (d_parent (h n)) (Some n) [n] = Some ([n], d_parent (h n))"
    using a by (cases "d_parent (h n)") (simp_all add: getAncestors_loop.simps)
  then have "getAncestors_loop h (Some n) (Some n) [] = Some ([n], d_parent (h n))"
    by (subst getAncestors_loop.simps) simp
  with a show ?thesis by (simp add: getAncestors_def)
qed

subsection \<open>Reads of a stale concatenated matrix or colour transform\<close>

text \<open>
  A node whose flag is set is never the closest ancestor with the flag clear, so
  \<^verbatim>\<open>_getAncestors(this, ancestor)\<close> is called on two different references and its
  assertion fails before the loop over the path starts.
\<close>

lemma getConcatenatedMatrix_dirty:
  assumes "node_hasFlags h n InvalidConcatenatedMatrix"
  shows "getConcatenatedMatrix h n =
           (case findClosestAncestor h n InvalidConcatenatedMatrix False of
              None \<Rightarrow> None | Some a \<Rightarrow> Some (h, Inl AssertionError))"
  using assms findClosestAncestor_not_self [OF assms]
  by (auto simp add: getConcatenatedMatrix_def undefined_strict_equals_def getAncestors_other
      split: option.splits)

lemma getConcatenatedColorTransform_dirty:
  assumes "node_hasFlags h n InvalidConcatenatedColorTransform"
  shows "getConcatenatedColorTransform h n =
           (case findClosestAncestor h n InvalidConcatenatedColorTransform False of
              None \<Rightarrow> None | Some a \<Rightarrow> Some (h, Inl AssertionError))"
  using assms findClosestAncestor_not_self [OF assms]
  by (auto simp add: getConcatenatedColorTransform_def undefined_strict_equals_def
      getAncestors_other split: option.splits)

text \<open>
  Claim C4. A read of \<^verbatim>\<open>_getConcatenatedMatrix\<close> or of
  \<^verbatim>\<open>_getConcatenatedColorTransform\<close> on a node whose dirty flag is set leaves every
  node outside the path to the closest valid ancestor, that ancestor included, with the
  flags and the cached values it had. The store that the read leaves is the store it
  was given, node by node, so the nodes on the path are untouched as well; and the read
  returns whenever the chain of parents of the node is finite.
\<close>

theorem read_dirty_frame:
  "(node_hasFlags h n InvalidConcatenatedMatrix \<longrightarrow>
      (\<forall>h' r. getConcatenatedMatrix h n = Some (h', r) \<longrightarrow> (\<forall>j. h' j = h j)) \<and>
      (parentChainEnds k h (Some n) \<longrightarrow> (\<exists>r. getConcatenatedMatrix h n = Some (h, r)))) \<and>
   (node_hasFlags h n InvalidConcatenatedColorTransform \<longrightarrow>
      (\<forall>h' r. getConcatenatedColorTransform h n = Some (h', r) \<longrightarrow> (\<forall>j. h' j = h j)) \<and>
      (parentChainEnds k h (Some n) \<longrightarrow>
         (\<exists>r. getConcatenatedColorTransform h n = Some (h, r))))"
proof (intro conjI impI)
  assume d: "node_hasFlags h n InvalidConcatenatedMatrix"
  show "\<forall>h' r. getConcatenatedMatrix h n = Some (h', r) \<longrightarrow> (\<forall>j. h' j = h j)"
    by (auto simp: getConcatenatedMatrix_dirty [OF d] split: option.splits)
  assume "parentChainEnds k h (Some n)"
  then obtain a where "findClosestAncestor h n InvalidConcatenatedMatrix False = Some a"
    using findClosestAncestor_returns by blast
  then show "\<exists>r. getConcatenatedMatrix h n = Some (h, r)"
    by (simp add: getConcatenatedMatrix_dirty [OF d])
next
  assume d: "node_hasFlags h n InvalidConcatenatedColorTransform"
  show "\<forall>h' r. getConcatenatedColorTransform h n = Some (h', r) \<longrightarrow> (\<forall>j. h' j = h j)"
    by (auto simp: getConcatenatedColorTransform_dirty [OF d] split: option.splits)
  assume "parentChainEnds k h (Some n)"
  then obtain a where
    "findClosestAncestor h n InvalidConcatenatedColorTransform False = Some a"
    using findClosestAncestor_returns by blast
  then show "\<exists>r. getConcatenatedColorTransform h n = Some (h, r)"
    by (simp add: getConcatenatedColorTransform_dirty [OF d])
qed

text \<open>
  On the chain R, A, B with both caches of A and B stale, both reads of B return the
  store as it was.
\<close>

theorem read_dirty_frame_witness:
  "node_hasFlags chain_RAB_dirty 2 InvalidConcatenatedMatrix \<and>
   node_hasFlags chain_RAB_dirty 2 InvalidConcatenatedColorTransform \<and>
   parentChainEnds 3 chain_RAB_dirty (Some 2) \<and>
   findClosestAncestor chain_RAB_dirty 2 InvalidConcatenatedMatrix False = Some (Some 0) \<and>
   (\<exists>r. getConcatenatedMatrix chain_RAB_dirty 2 = Some (chain_RAB_dirty, r)) \<and>
   (\<exists>r. getConcatenatedColorTransform chain_RAB_dirty 2 = Some (chain_RAB_dirty, r))"
proof -
  have f1: "node_hasFlags chain_RAB_dirty 2 InvalidConcatenatedMatrix"
    by (simp add: chain_RAB_dirty_def node_hasFlags_def hasFlags_def
        InvalidConcatenatedMatrix_def)
  have f2: "node_hasFlags chain_RAB_dirty 2 InvalidConcatenatedColorTransform"
    by (simp add: chain_RAB_dirty_def node_hasFlags_def hasFlags_def
        InvalidConcatenatedColorTransform_def)
  have w: "parentChainEnds 3 chain_RAB_dirty (Some 2)"
    by (simp add: chain_RAB_dirty_def fresh_nodes_def initializer_def numeral_3_eq_3)
  have c: "findClosestAncestor chain_RAB_dirty 2 InvalidConcatenatedMatrix False = Some (Some 0)"
    by (simp add: findClosestAncestor_def findClosestAncestor_loop.simps chain_RAB_dirty_def
        fresh_nodes_def initializer_def node_hasFlags_def hasFlags_def
        InvalidConcatenatedMatrix_def Flags_None_def)
  from read_dirty_frame [of chain_RAB_dirty 2 3] f1 f2 w
  have "(\<exists>r. getConcatenatedMatrix chain_RAB_dirty 2 = Some (chain_RAB_dirty, r)) \<and>
        (\<exists>r. getConcatenatedColorTransform chain_RAB_dirty 2 = Some (chain_RAB_dirty, r))"
    by blast
  with f1 f2 w c show ?thesis by simp
qed

subsection \<open>Reading the concatenated matrix after a move\<close>

text \<open>
  Every read of a stale concatenated matrix fails: on a node that carries
  InvalidConcatenatedMatrix and whose chain of parents is finite,
  \<^verbatim>\<open>_getConcatenatedMatrix\<close> ends in the failed assertion of \<^verbatim>\<open>_getAncestors\<close>,
  returns no matrix and leaves the flag set.
\<close>

theorem dirty_read_fails:
  assumes "node_hasFlags h n InvalidConcatenatedMatrix" and "parentChainEnds k h (Some n)"
  shows "getConcatenatedMatrix h n = Some (h, Inl AssertionError)"
proof -
  from assms(2) obtain a where "findClosestAncestor h n InvalidConcatenatedMatrix False = Some a"
    using findClosestAncestor_returns by blast
  then show ?thesis by (simp add: getConcatenatedMatrix_dirty [OF assms(1)])
qed

theorem dirty_read_fails_witness:
  "node_hasFlags chain_RAB_dirty 1 InvalidConcatenatedMatrix \<and>
   parentChainEnds 2 chain_RAB_dirty (Some 1) \<and>
   getConcatenatedMatrix chain_RAB_dirty 1 = Some (chain_RAB_dirty, Inl AssertionError)"
proof -
  have a: "node_hasFlags chain_RAB_dirty 1 InvalidConcatenatedMatrix"
    by (simp add: chain_RAB_dirty_def node_hasFlags_def hasFlags_def
        InvalidConcatenatedMatrix_def)
  have b: "parentChainEnds 2 chain_RAB_dirty (Some 1)"
    by (simp add: chain_RAB_dirty_def fresh_nodes_def initializer_def numeral_2_eq_2)
  from dirty_read_fails [OF a b] a b show ?thesis by simp
qed

text \<open>
  Claim C1. The claim is that a read after any sequence of moves returns the product
  of the local matrices from the root down to the node and leaves the cache valid. The
  method does not: take the chain R, A, B of the spec, set \<^verbatim>\<open>A.x = 10\<close> and
  \<^verbatim>\<open>B.y = 5\<close>, and read the concatenated matrix of B. The product of the three
  local matrices is the translation by (200, 100) twips; the read fails with the
  assertion of \<^verbatim>\<open>_getAncestors\<close>, the cached matrix of B is still the identity
  and B still carries InvalidConcatenatedMatrix.
\<close>

theorem read_after_moves_fails:
  "set_x chain_RAB 1 (Finite 10) = Some chain_RAB_A_moved \<and>
   set_y chain_RAB_A_moved 2 (Finite 5) = Some chain_RAB_moved \<and>
   getConcatenatedMatrix chain_RAB_moved 2 = Some (chain_RAB_moved, Inl AssertionError) \<and>
   node_hasFlags chain_RAB_moved 2 InvalidConcatenatedMatrix \<and>
   d_concatenatedMatrix (chain_RAB_moved 2) = Matrix_new \<and>
   Matrix_concat (Matrix_concat (Matrix_concat Matrix_new (d_matrix (chain_RAB_moved 0)))
      (d_matrix (chain_RAB_moved 1))) (d_matrix (chain_RAB_moved 2))
     = Matrix_new\<lparr>m_tx := 200, m_ty := 100\<rparr>"
proof -
  have a: "set_x chain_RAB 1 (Finite 10) = Some chain_RAB_A_moved"
    by (simp add: set_x_def ToInt32_def times20_def invalidatePosition_def
        invalidateBounds_def propagateFlags.simps setFlagsUpward.simps chain_RAB_def
        chain_RAB_A_moved_def fresh_nodes_def initializer_def node_hasFlags_def node_setFlags_def
        node_removeFlags_def hasFlags_def setFlags_def removeFlags_def direction_and_def
        Upward_def Downward_def Flags_None_def InvalidConcatenatedMatrix_def InvalidBounds_def
        AnimatedByTimeline_def instanceof_DisplayObjectContainer_def Let_def Matrix_new_def
        fun_eq_iff)
  have a2: "set_y chain_RAB_A_moved 2 (Finite 5) = Some chain_RAB_moved"
    by (simp add: set_y_def ToInt32_def times20_def invalidatePosition_def
        invalidateBounds_def propagateFlags.simps setFlagsUpward.simps chain_RAB_moved_def
        chain_RAB_A_moved_def fresh_nodes_def initializer_def node_hasFlags_def node_setFlags_def
        node_removeFlags_def hasFlags_def setFlags_def removeFlags_def direction_and_def
        Upward_def Downward_def Flags_None_def InvalidConcatenatedMatrix_def InvalidBounds_def
        AnimatedByTimeline_def instanceof_DisplayObjectContainer_def Let_def Matrix_new_def
        fun_eq_iff)
  have b: "getConcatenatedMatrix chain_RAB_moved 2 = Some (chain_RAB_moved, Inl AssertionError)"
    by (simp add: getConcatenatedMatrix_def undefined_strict_equals_def findClosestAncestor_def
        findClosestAncestor_loop.simps getAncestors_def getAncestors_loop.simps
        chain_RAB_moved_def fresh_nodes_def initializer_def node_hasFlags_def hasFlags_def
        InvalidConcatenatedMatrix_def Flags_None_def)
  have c: "node_hasFlags chain_RAB_moved 2 InvalidConcatenatedMatrix"
    by (simp add: chain_RAB_moved_def node_hasFlags_def hasFlags_def InvalidConcatenatedMatrix_def)
  have d: "d_concatenatedMatrix (chain_RAB_moved 2) = Matrix_new"
    by (simp add: chain_RAB_moved_def initializer_def)
  have e: "Matrix_concat (Matrix_concat (Matrix_concat Matrix_new (d_matrix (chain_RAB_moved 0)))
      (d_matrix (chain_RAB_moved 1))) (d_matrix (chain_RAB_moved 2))
     = Matrix_new\<lparr>m_tx := 200, m_ty := 100\<rparr>"
    by (simp add: chain_RAB_moved_def fresh_nodes_def initializer_def Matrix_concat_def Matrix_new_def)
  from a a2 b c d e show ?thesis by blast
qed

subsection \<open>Downward propagation\<close>

text \<open>
  What downward propagation does reach: the node itself and each of its children.
\<close>

lemma fold_children_marks:
  "fold (\<lambda>child acc. case acc of None \<Rightarrow> None
                 | Some hc \<Rightarrow> if node_hasFlags hc child f then Some hc
                             else propagateFlags hc child f None) cs (Some h) = Some h'
   \<Longrightarrow> c \<in> set cs \<Longrightarrow> node_hasFlags h' c f"
proof (induction cs arbitrary: h)
  case Nil
  then show ?case by simp
next
  case (Cons x cs)
  let ?h1 = "if node_hasFlags h x f then h else node_setFlags h x f"
  from Cons.prems(1) have f: "fold (\<lambda>child acc. case acc of None \<Rightarrow> None
                 | Some hc \<Rightarrow> if node_hasFlags hc child f then Some hc
                             else propagateFlags hc child f None) cs (Some ?h1) = Some h'"
    by (cases "node_hasFlags h x f") (simp_all add: propagateFlags_None)
  show ?case
  proof (cases "c \<in> set cs")
    case True
    with Cons.IH [OF f] show ?thesis .
  next
    case False
    with Cons.prems(2) have "c = x" by simp
    then have "node_hasFlags ?h1 c f" by (simp add: node_hasFlags_node_setFlags)
    moreover from fold_children [of f cs ?h1] f
    have "\<forall>j g. node_hasFlags ?h1 j g \<longrightarrow> node_hasFlags h' j g" by auto
    ultimately show ?thesis by blast
  qed
qed

theorem propagate_down_marks_children:
  assumes "propagateFlags h n f (Some Downward) = Some h'"
    and "\<not> node_hasFlags h n f"
    and "instanceof_DisplayObjectContainer (d_class (h n))"
    and "c \<in> set (d_children (h n))"
  shows "node_hasFlags h' n f \<and> node_hasFlags h' c f"
proof -
  let ?h1 = "node_setFlags h n f"
  have dn: "direction_and (Some Downward) Downward \<noteq> 0" "direction_and (Some Downward) Upward = 0"
    by (simp_all add: direction_and_def Downward_def Upward_def)
  have k: "instanceof_DisplayObjectContainer (d_class (?h1 n))" "d_children (?h1 n) = d_children (h n)"
    using assms(3) by (simp_all add: node_setFlags_def)
  from assms(1,2) dn k have "fold (\<lambda>child acc. case acc of None \<Rightarrow> None
                 | Some hc \<Rightarrow> if node_hasFlags hc child f then Some hc
                             else propagateFlags hc child f None) (d_children (h n)) (Some ?h1) = Some h'"
    by (subst (asm) propagateFlags.simps) (simp add: Let_def)
  from fold_children_marks [OF this assms(4)] propagateFlags_result [OF assms(1)]
  show ?thesis by simp
qed

theorem propagate_down_marks_children_witness:
  "propagateFlags tree_ABCDE 0 InvalidConcatenatedMatrix (Some Downward) = Some tree_ABCDE_marked \<and>
   \<not> node_hasFlags tree_ABCDE 0 InvalidConcatenatedMatrix \<and>
   instanceof_DisplayObjectContainer (d_class (tree_ABCDE 0)) \<and>
   2 \<in> set (d_children (tree_ABCDE 0)) \<and>
   node_hasFlags tree_ABCDE_marked 0 InvalidConcatenatedMatrix \<and>
   node_hasFlags tree_ABCDE_marked 2 InvalidConcatenatedMatrix"
proof -
  have a: "propagateFlags tree_ABCDE 0 InvalidConcatenatedMatrix (Some Downward) = Some tree_ABCDE_marked"
    by (simp add: propagateFlags.simps tree_ABCDE_def tree_ABCDE_marked_def fresh_nodes_def
      initializer_def node_hasFlags_def node_setFlags_def hasFlags_def setFlags_def
      direction_and_def Upward_def Downward_def Flags_None_def InvalidConcatenatedMatrix_def
      instanceof_DisplayObjectContainer_def Let_def fun_eq_iff)
  have b: "\<not> node_hasFlags tree_ABCDE 0 InvalidConcatenatedMatrix"
    by (simp add: tree_ABCDE_def fresh_nodes_def initializer_def node_hasFlags_def hasFlags_def
        InvalidConcatenatedMatrix_def Flags_None_def)
  have c: "instanceof_DisplayObjectContainer (d_class (tree_ABCDE 0))"
    by (simp add: tree_ABCDE_def initializer_def instanceof_DisplayObjectContainer_def)
  have d: "2 \<in> set (d_children (tree_ABCDE 0))"
    by (simp add: tree_ABCDE_def initializer_def)
  from propagate_down_marks_children [OF a b c d] a b c d show ?thesis by simp
qed

text \<open>
  Claim C2. The claim is that after \<^verbatim>\<open>_propagateFlags(f, Downward)\<close> every
  descendant of the node carries the flag. The method calls
  \<^verbatim>\<open>children[i]._propagateFlags(flags)\<close> without a direction, so a child sets the
  flag on itself and goes no further: on the tree of the comment in the source file,
  invalidating A marks A, B and C, and D and E, the children of C, stay unmarked.
\<close>

theorem propagate_down_misses_grandchildren:
  "propagateFlags tree_ABCDE 0 InvalidConcatenatedMatrix (Some Downward) = Some tree_ABCDE_marked \<and>
   node_hasFlags tree_ABCDE_marked 2 InvalidConcatenatedMatrix \<and>
   d_children (tree_ABCDE_marked 2) = [3, 4] \<and>
   \<not> node_hasFlags tree_ABCDE_marked 3 InvalidConcatenatedMatrix \<and>
   \<not> node_hasFlags tree_ABCDE_marked 4 InvalidConcatenatedMatrix"
proof -
  have a: "propagateFlags tree_ABCDE 0 InvalidConcatenatedMatrix (Some Downward) = Some tree_ABCDE_marked"
    by (simp add: propagateFlags.simps tree_ABCDE_def tree_ABCDE_marked_def fresh_nodes_def
      initializer_def node_hasFlags_def node_setFlags_def hasFlags_def setFlags_def
      direction_and_def Upward_def Downward_def Flags_None_def InvalidConcatenatedMatrix_def
      instanceof_DisplayObjectContainer_def Let_def fun_eq_iff)
  have b: "node_hasFlags tree_ABCDE_marked 2 InvalidConcatenatedMatrix \<and>
   d_children (tree_ABCDE_marked 2) = [3, 4] \<and>
   \<not> node_hasFlags tree_ABCDE_marked 3 InvalidConcatenatedMatrix \<and>
   \<not> node_hasFlags tree_ABCDE_marked 4 InvalidConcatenatedMatrix"
    by (simp add: tree_ABCDE_marked_def fresh_nodes_def initializer_def node_hasFlags_def
        hasFlags_def InvalidConcatenatedMatrix_def Flags_None_def)
  from a b show ?thesis by simp
qed

subsection \<open>The path to an ancestor\<close>

text \<open>
  \<^verbatim>\<open>_getAncestors\<close> fails its assertion on every node that is not its own parent,
  whatever the node \<^verbatim>\<open>last\<close> is.
\<close>

theorem getAncestors_always_fails:
  "d_parent (h n) \<noteq> Some n \<Longrightarrow> getAncestors h (Some n) l = Some (Inl AssertionError)"
  by (cases "l = Some n") (simp_all add: getAncestors_self getAncestors_other)

theorem getAncestors_always_fails_witness:
  "d_parent (chain_RAB 2) \<noteq> Some 2 \<and>
   getAncestors chain_RAB (Some 2) (Some 0) = Some (Inl AssertionError) \<and>
   getAncestors chain_RAB (Some 2) (Some 2) = Some (Inl AssertionError)"
proof -
  have a: "d_parent (chain_RAB 2) \<noteq> Some 2"
    by (simp add: chain_RAB_def)
  from getAncestors_always_fails [of chain_RAB 2 "Some 0"]
    getAncestors_always_fails [of chain_RAB 2 "Some 2"] a
  show ?thesis by simp
qed

text \<open>
  Claim C3. The claim is that \<^verbatim>\<open>_getAncestors(n, last)\<close> returns the nodes from
  \<^verbatim>\<open>n\<close> up to \<^verbatim>\<open>last\<close> and fails exactly when \<^verbatim>\<open>last\<close> is not an ancestor
  of \<^verbatim>\<open>n\<close>. The loop runs while \<^verbatim>\<open>node === last\<close>, so on the chain R, A, B the
  call fails for B with its grandparent R, with its parent A and with \<^verbatim>\<open>null\<close>,
  all of which the walk from B reaches, just as it fails for R with B, which is no
  ancestor of R.
\<close>

theorem getAncestors_fails_on_ancestor:
  "isAncestor chain_RAB 2 (Some 0) = Some True \<and>
   getAncestors chain_RAB (Some 2) (Some 0) = Some (Inl AssertionError) \<and>
   isAncestor chain_RAB 2 (Some 1) = Some True \<and>
   getAncestors chain_RAB (Some 2) (Some 1) = Some (Inl AssertionError) \<and>
   getAncestors chain_RAB (Some 2) None = Some (Inl AssertionError) \<and>
   isAncestor chain_RAB 0 (Some 2) = Some False \<and>
   getAncestors chain_RAB (Some 0) (Some 2) = Some (Inl AssertionError)"
  by (simp add: isAncestor_def isAncestor_loop.simps getAncestors_def getAncestors_loop.simps
      chain_RAB_def fresh_nodes_def initializer_def)

subsection \<open>Content bounds and transformed bounds\<close>

text \<open>
  Claim C7. The claim is that a container's content bounds are the union of its own
  graphics bounds and its children's bounds, so that a parent whose only child has bounds
  (0, 0, 10, 10) has these bounds on the next read. The method reads the undeclared
  identifier \<^verbatim>\<open>children\<close>: on a container with invalid bounds the read throws a
  ReferenceError (a TypeError when the rectangle was never created), while the child
  itself reports (0, 0, 10, 10).
\<close>

theorem getContentBounds_container_fails:
  "getContentBounds parent_and_child 0 True = (parent_and_child, Inl ReferenceError) \<and>
   getContentBounds parent_and_child 0 False = (parent_and_child, Inl TypeError) \<and>
   getContentBounds parent_and_child 1 True =
     (parent_and_child, Inr (Some \<lparr>r_x = 0, r_y = 0, r_width = 10, r_height = 10\<rparr>))"
  by (simp add: getContentBounds_def parent_and_child_def fresh_nodes_def initializer_def
      node_hasFlags_def hasFlags_def InvalidBounds_def storeBounds_def instanceof_Shape_def
      instanceof_Sprite_def instanceof_DisplayObjectContainer_def Let_def
      Rectangle_setEmpty_def Flags_None_def fun_eq_iff)

lemma getConcatenatedMatrix_clean:
  "\<not> node_hasFlags h n InvalidConcatenatedMatrix \<Longrightarrow>
   getConcatenatedMatrix h n = Some (h, Inr (ConcatenatedMatrixOf n))"
  by (simp add: getConcatenatedMatrix_def undefined_strict_equals_def)

text \<open>
  When the bounds of the node and the concatenated matrices of the node and of the
  target are all valid, \<^verbatim>\<open>_getTransformedBounds\<close> returns the box of the bounds
  under \<^verbatim>\<open>inverse(target) * node\<close>, and it computes that matrix in the cached
  concatenated matrix of the target, which it leaves overwritten.
\<close>

theorem getTransformedBounds_clean:
  assumes "t \<noteq> n"
    and "\<not> node_hasFlags h n InvalidBounds"
    and "d_bounds (h n) = Some b"
    and "\<not> Rectangle_isEmpty b"
    and "\<not> node_hasFlags h t InvalidConcatenatedMatrix"
    and "\<not> node_hasFlags h n InvalidConcatenatedMatrix"
  shows "getTransformedBounds h n (Some t) True False =
           Some (h(t := (h t)\<lparr>d_concatenatedMatrix :=
                     Matrix_concat (Matrix_invert (d_concatenatedMatrix (h t)))
                       (d_concatenatedMatrix (h n))\<rparr>),
                 Inr (transformRectAABB
                        (Matrix_concat (Matrix_invert (d_concatenatedMatrix (h t)))
                           (d_concatenatedMatrix (h n))) b))"
proof -
  let ?h3 = "h(t := (h t)\<lparr>d_concatenatedMatrix := Matrix_invert (d_concatenatedMatrix (h t))\<rparr>)"
  have c: "getContentBounds h n True = (h, Inr (Some b))"
    using assms(2,3) by (simp add: getContentBounds_def)
  have g1: "getConcatenatedMatrix h t = Some (h, Inr (ConcatenatedMatrixOf t))"
    using assms(5) by (rule getConcatenatedMatrix_clean)
  have "\<not> node_hasFlags ?h3 n InvalidConcatenatedMatrix"
    using assms(1,6) by (simp add: node_hasFlags_def)
  then have g2: "getConcatenatedMatrix ?h3 n = Some (?h3, Inr (ConcatenatedMatrixOf n))"
    by (rule getConcatenatedMatrix_clean)
  show ?thesis
    using assms(1,4) c g1 g2
    by (simp add: getTransformedBounds_def updateMatrix_def readMatrix_def)
qed

theorem getTransformedBounds_clean_witness:
  "getTransformedBounds clean_pair 0 (Some 1) True False =
     Some (clean_pair(1 := (clean_pair 1)\<lparr>d_concatenatedMatrix := Matrix_new\<lparr>m_tx := - 20\<rparr>\<rparr>),
           Inr \<lparr>r_x = - 20, r_y = 0, r_width = 10, r_height = 10\<rparr>)"
proof -
  have b: "d_bounds (clean_pair 0) = Some \<lparr>r_x = 0, r_y = 0, r_width = 10, r_height = 10\<rparr>"
    by (simp add: clean_pair_def)
  have e: "\<not> Rectangle_isEmpty \<lparr>r_x = 0, r_y = 0, r_width = 10, r_height = 10\<rparr>"
    by (simp add: Rectangle_isEmpty_def)
  have f: "\<not> node_hasFlags clean_pair 0 InvalidBounds"
    "\<not> node_hasFlags clean_pair 1 InvalidConcatenatedMatrix"
    "\<not> node_hasFlags clean_pair 0 InvalidConcatenatedMatrix"
    by (simp_all add: clean_pair_def fresh_nodes_def initializer_def node_hasFlags_def hasFlags_def
        InvalidBounds_def InvalidConcatenatedMatrix_def Flags_None_def)
  have m: "Matrix_concat (Matrix_invert (d_concatenatedMatrix (clean_pair 1)))
             (d_concatenatedMatrix (clean_pair 0)) = Matrix_new\<lparr>m_tx := - 20\<rparr>"
    by (simp add: clean_pair_def initializer_def Matrix_concat_def Matrix_invert_def Matrix_new_def)
  have r: "transformRectAABB (Matrix_new\<lparr>m_tx := - 20\<rparr>)
             \<lparr>r_x = 0, r_y = 0, r_width = 10, r_height = 10\<rparr>
           = \<lparr>r_x = - 20, r_y = 0, r_width = 10, r_height = 10\<rparr>"
    by (simp add: transformRectAABB_def transformX_def transformY_def min4_def max4_def
        Matrix_new_def Let_def)
  have n: "(1::nat) \<noteq> 0" by simp
  from getTransformedBounds_clean [OF n f(1) b e f(2) f(3)] m r
  show ?thesis by simp
qed

text \<open>
  Claim C8. The claim is that for every node and every other target node
  \<^verbatim>\<open>_getTransformedBounds\<close> returns the node's bounds mapped through
  \<^verbatim>\<open>inverse(target's concatenated matrix) * node's concatenated matrix\<close>. After
  \<^verbatim>\<open>target.x = 1\<close> the concatenated matrix of the target is stale, and the call
  fails with the assertion of \<^verbatim>\<open>_getAncestors\<close> instead of returning a
  rectangle.
\<close>

theorem getTransformedBounds_dirty_target_fails:
  "set_x (fresh_nodes(0 := (initializer PlainObject)
            \<lparr>d_bounds := Some \<lparr>r_x = 0, r_y = 0, r_width = 10, r_height = 10\<rparr>\<rparr>)) 1 (Finite 1)
     = Some node_and_target \<and>
   getTransformedBounds node_and_target 0 (Some 1) True False
     = Some (node_and_target, Inl AssertionError)"
proof -
  have a: "set_x (fresh_nodes(0 := (initializer PlainObject)
            \<lparr>d_bounds := Some \<lparr>r_x = 0, r_y = 0, r_width = 10, r_height = 10\<rparr>\<rparr>)) 1 (Finite 1)
     = Some node_and_target"
    by (simp add: set_x_def ToInt32_def times20_def invalidatePosition_def
        propagateFlags.simps node_and_target_def fresh_nodes_def initializer_def
        node_hasFlags_def node_setFlags_def node_removeFlags_def hasFlags_def setFlags_def
        removeFlags_def direction_and_def Upward_def Downward_def Flags_None_def
        InvalidConcatenatedMatrix_def AnimatedByTimeline_def
        instanceof_DisplayObjectContainer_def Let_def Matrix_new_def fun_eq_iff)
  have b: "getTransformedBounds node_and_target 0 (Some 1) True False
     = Some (node_and_target, Inl AssertionError)"
    by (simp add: getTransformedBounds_def getContentBounds_def node_and_target_def
        fresh_nodes_def initializer_def node_hasFlags_def hasFlags_def InvalidBounds_def
        Rectangle_isEmpty_def Flags_None_def InvalidConcatenatedMatrix_def
        getConcatenatedMatrix_def undefined_strict_equals_def findClosestAncestor_def
        findClosestAncestor_loop.simps getAncestors_def getAncestors_loop.simps Let_def)
  from a b show ?thesis by simp
qed

subsection \<open>Mask exclusivity\<close>

lemma set_mask_None:
  "set_mask h n None =
     (if d_mask (h n) = None then Some h
      else invalidatePaint (h(n := (h n)\<lparr>d_mask := None\<rparr>)) n)"
  by (simp add: set_mask.simps)

lemma set_mask_None_result:
  assumes "\<forall>j. parentChainEnds k h (Some j)"
  shows "\<exists>h1. set_mask h n None = Some h1 \<and> d_mask (h1 n) = None
          \<and> (\<forall>j. j \<noteq> n \<longrightarrow> d_mask (h1 j) = d_mask (h j))
          \<and> (\<forall>j. d_maskedObject (h1 j) = d_maskedObject (h j))
          \<and> (\<forall>j. d_parent (h1 j) = d_parent (h j))"
proof (cases "d_mask (h n) = None")
  case True
  then show ?thesis by (simp add: set_mask_None)
next
  case False
  let ?g = "h(n := (h n)\<lparr>d_mask := None\<rparr>)"
  have "parentChainEnds k ?g (Some n) = parentChainEnds k h (Some n)"
    by (rule parentChainEnds_cong) simp
  with assms have "parentChainEnds k ?g (Some n)" by simp
  then obtain h1 where h1: "invalidatePaint ?g n = Some h1"
    using invalidatePaint_returns by blast
  then have o: "onlyFlagsDiffer ?g h1" by (rule invalidatePaint_onlyFlags)
  show ?thesis
    using False h1 onlyFlagsDiffer_fields [OF o]
    by (simp add: set_mask_None)
qed

lemma set_mask_Some_result:
  assumes tm: "m \<noteq> t"
    and inv: "\<forall>a. d_mask (h a) = Some m \<longrightarrow> d_maskedObject (h m) = Some a"
    and wf: "\<forall>j. parentChainEnds k h (Some j)"
  shows "\<exists>h'. set_mask h t (Some m) = Some h' \<and> d_mask (h' t) = Some m
          \<and> d_maskedObject (h' m) = Some t
          \<and> (\<forall>a. a \<noteq> t \<longrightarrow> d_mask (h' a) \<noteq> Some m)
          \<and> (\<forall>j. d_parent (h' j) = d_parent (h j))
          \<and> (\<forall>b. d_maskedObject (h m) = Some b \<and> b \<noteq> t \<longrightarrow> d_mask (h' b) = None)"
proof (cases "d_mask (h t) = Some m")
  case True
  then have "set_mask h t (Some m) = Some h" by (simp add: set_mask.simps)
  moreover have "d_maskedObject (h m) = Some t" using True inv by blast
  moreover have "\<forall>a. a \<noteq> t \<longrightarrow> d_mask (h a) \<noteq> Some m"
    using inv \<open>d_maskedObject (h m) = Some t\<close> by auto
  ultimately show ?thesis using True by auto
next
  case False
  obtain h1 where h1: "(case d_maskedObject (h m) of Some masked \<Rightarrow> set_mask h masked None | None \<Rightarrow> Some h) = Some h1"
    and m1: "\<forall>b. d_maskedObject (h m) = Some b \<longrightarrow> d_mask (h1 b) = None"
    and k1: "\<forall>j. d_maskedObject (h m) \<noteq> Some j \<longrightarrow> d_mask (h1 j) = d_mask (h j)"
    and p1: "\<forall>j. d_parent (h1 j) = d_parent (h j)"
  proof (cases "d_maskedObject (h m)")
    case None
    then show ?thesis using that [of h] by simp
  next
    case (Some b)
    from set_mask_None_result [OF wf, of b] obtain hb where
      "set_mask h b None = Some hb" "d_mask (hb b) = None"
      "\<forall>j. j \<noteq> b \<longrightarrow> d_mask (hb j) = d_mask (h j)"
      "\<forall>j. d_parent (hb j) = d_parent (h j)" by blast
    then show ?thesis using that [of hb] Some by simp
  qed
  let ?h2 = "h1(t := (h1 t)\<lparr>d_mask := Some m\<rparr>)"
  let ?h3 = "?h2(m := (?h2 m)\<lparr>d_maskedObject := Some t\<rparr>)"
  have "parentChainEnds k ?h3 (Some t) = parentChainEnds k h (Some t)"
    by (rule parentChainEnds_cong) (simp add: p1)
  with wf have "parentChainEnds k ?h3 (Some t)" by simp
  then obtain h' where h': "invalidatePaint ?h3 t = Some h'"
    using invalidatePaint_returns by blast
  then have o: "onlyFlagsDiffer ?h3 h'" by (rule invalidatePaint_onlyFlags)
  have r: "set_mask h t (Some m) = Some h'"
    using False tm h1 h' by (subst set_mask.simps) (auto simp: Let_def)
  have a: "d_mask (h' t) = Some m"
    using onlyFlagsDiffer_fields(2) [OF o, of t] tm by simp
  have b: "d_maskedObject (h' m) = Some t"
    using onlyFlagsDiffer_fields(3) [OF o, of m] by simp
  have c: "\<forall>a. a \<noteq> t \<longrightarrow> d_mask (h' a) \<noteq> Some m"
  proof (intro allI impI)
    fix a assume "a \<noteq> t"
    then have "d_mask (h' a) = d_mask (h1 a)"
      using onlyFlagsDiffer_fields(2) [OF o, of a] by simp
    moreover have "d_mask (h1 a) \<noteq> Some m"
    proof (cases "d_maskedObject (h m) = Some a")
      case True
      then show ?thesis using m1 by simp
    next
      case False
      then have "d_mask (h1 a) = d_mask (h a)" using k1 by simp
      then show ?thesis using inv False by auto
    qed
    ultimately show "d_mask (h' a) \<noteq> Some m" by simp
  qed
  have d: "\<forall>j. d_parent (h' j) = d_parent (h j)"
    using onlyFlagsDiffer_fields(1) [OF o] p1 by simp
  have e: "\<forall>b. d_maskedObject (h m) = Some b \<and> b \<noteq> t \<longrightarrow> d_mask (h' b) = None"
  proof (intro allI impI)
    fix b assume bt: "d_maskedObject (h m) = Some b \<and> b \<noteq> t"
    then have "d_mask (h1 b) = None" using m1 by blast
    moreover have "d_mask (h' b) = d_mask (h1 b)"
      using onlyFlagsDiffer_fields(2) [OF o, of b] bt by auto
    ultimately show "d_mask (h' b) = None" by simp
  qed
  from r a b c d e show ?thesis by blast
qed

text \<open>
  Claim C6, as stated, for every mask node and two distinct targets: it fails when the
  mask node is the second target. The setter ignores the assignment of a node as its
  own mask, so after \<^verbatim>\<open>node0.mask = node1\<close> and \<^verbatim>\<open>node1.mask = node1\<close> node 0 is
  still masked by node 1, node 1 has no mask and its masked object is node 0.
\<close>

theorem set_mask_self_counterexample:
  "(0::nat) \<noteq> 1 \<and>
   set_mask fresh_nodes 0 (Some 1) = Some masked_once \<and>
   set_mask masked_once 1 (Some 1) = Some masked_once \<and>
   d_mask (masked_once 1) \<noteq> Some 1 \<and>
   d_mask (masked_once 0) \<noteq> None \<and>
   d_maskedObject (masked_once 1) \<noteq> Some 1"
  by (simp add: set_mask.simps invalidatePaint_def propagateFlags.simps setFlagsUpward.simps
      masked_once_def fresh_nodes_def initializer_def node_hasFlags_def node_setFlags_def
      hasFlags_def setFlags_def direction_and_def Upward_def Downward_def Flags_None_def
      InvalidPaint_def Let_def fun_eq_iff)

text \<open>
  Claim C6, amended. Let the mask node \<open>m\<close> differ from both targets, let the
  targets differ, let every node whose mask is \<open>m\<close> be the masked object of \<open>m\<close>
  (the setter keeps it so) and let every chain of parents be finite. Then assigning
  \<open>m\<close> as the mask of \<open>t1\<close> and then of \<open>t2\<close> returns, and afterwards the mask
  of \<open>t2\<close> is \<open>m\<close>, \<open>t1\<close> has no mask, the masked object of \<open>m\<close> is
  \<open>t2\<close>, and no node but \<open>t2\<close> has \<open>m\<close> as its mask.
\<close>

theorem set_mask_exclusive:
  assumes "m \<noteq> t1" and "m \<noteq> t2" and "t1 \<noteq> t2"
    and inv: "\<forall>a. d_mask (h a) = Some m \<longrightarrow> d_maskedObject (h m) = Some a"
    and wf: "\<forall>j. parentChainEnds k h (Some j)"
  shows "\<exists>h1 h2. set_mask h t1 (Some m) = Some h1 \<and> set_mask h1 t2 (Some m) = Some h2
           \<and> d_mask (h2 t2) = Some m \<and> d_mask (h2 t1) = None
           \<and> d_maskedObject (h2 m) = Some t2
           \<and> (\<forall>a. d_mask (h2 a) = Some m \<longrightarrow> a = t2)"
proof -
  from set_mask_Some_result [OF assms(1) inv wf] obtain h1 where
    s1: "set_mask h t1 (Some m) = Some h1"
    and a1: "d_mask (h1 t1) = Some m"
    and b1: "d_maskedObject (h1 m) = Some t1"
    and c1: "\<forall>a. a \<noteq> t1 \<longrightarrow> d_mask (h1 a) \<noteq> Some m"
    and d1: "\<forall>j. d_parent (h1 j) = d_parent (h j)" by blast
  have inv1: "\<forall>a. d_mask (h1 a) = Some m \<longrightarrow> d_maskedObject (h1 m) = Some a"
    using b1 c1 by auto
  have "\<And>j. parentChainEnds k h1 (Some j) = parentChainEnds k h (Some j)"
    by (rule parentChainEnds_cong) (simp add: d1)
  with wf have wf1: "\<forall>j. parentChainEnds k h1 (Some j)" by simp
  from set_mask_Some_result [OF assms(2) inv1 wf1] obtain h2 where
    s2: "set_mask h1 t2 (Some m) = Some h2"
    and a2: "d_mask (h2 t2) = Some m"
    and b2: "d_maskedObject (h2 m) = Some t2"
    and c2: "\<forall>a. a \<noteq> t2 \<longrightarrow> d_mask (h2 a) \<noteq> Some m"
    and e2: "\<forall>b. d_maskedObject (h1 m) = Some b \<and> b \<noteq> t2 \<longrightarrow> d_mask (h2 b) = None" by blast
  have "d_mask (h2 t1) = None" using e2 b1 assms(3) by simp
  with s1 s2 a2 b2 c2 show ?thesis by blast
qed

theorem set_mask_exclusive_witness:
  "\<exists>h1 h2. set_mask fresh_nodes 0 (Some 2) = Some h1 \<and> set_mask h1 1 (Some 2) = Some h2 \<and>
     d_mask (h2 1) = Some 2 \<and> d_mask (h2 0) = None \<and> d_maskedObject (h2 2) = Some 1"
proof -
  have inv: "\<forall>a. d_mask (fresh_nodes a) = Some 2 \<longrightarrow> d_maskedObject (fresh_nodes 2) = Some a"
    by (simp add: fresh_nodes_def initializer_def)
  have wf: "\<forall>j. parentChainEnds 1 fresh_nodes (Some j)"
    by (simp add: fresh_nodes_def initializer_def)
  have d: "(2::nat) \<noteq> 0" "(2::nat) \<noteq> 1" "(0::nat) \<noteq> 1" by simp_all
  from set_mask_exclusive [OF d inv wf] show ?thesis by blast
qed

end
